theory Spec2Isabelle
  imports Complex_Main "HOL-Library.AList" "HOL-Library.Char_ord" "HOL-Library.List_Lexorder"
begin

section \<open>Python values, strings and the environment\<close>

text \<open>
  The program is one Python module, \<^verbatim>\<open>blackvueconcat.py\<close>. Python strings are
  modelled as \<^typ>\<open>string\<close> (code points below 256), Python integers as \<^typ>\<open>int\<close>.
  An uncaught exception ends the run: a function that may raise returns
  \<open>exn + 'a\<close>, with \<open>Inl\<close> the exception.
\<close>

datatype exn =
    ValueError | IndexError | UnboundLocalError | ZeroDivisionError
  | OverflowError | IsADirectoryError | SystemExit

text \<open>The value of \<^verbatim>\<open>inpoint\<close>: the integer it starts as, or a float.\<close>

datatype 'f pynum = PyInt int | PyFloat 'f

text \<open>\<^verbatim>\<open>s.startswith(p)\<close> and \<^verbatim>\<open>s.endswith(p)\<close>.\<close>

definition startswith :: "string \<Rightarrow> string \<Rightarrow> bool" where
  "startswith s p = (take (length p) s = p)"

definition endswith :: "string \<Rightarrow> string \<Rightarrow> bool" where
  "endswith s p = (length p \<le> length s \<and> drop (length s - length p) s = p)"

text \<open>
  The characters \<^verbatim>\<open>str.isspace\<close> accepts below code point 256: U+0009 to U+000D,
  U+001C to U+001F, U+0020, U+0085 and U+00A0.
\<close>

definition is_space :: "char \<Rightarrow> bool" where
  "is_space c = (c \<in> set [CHR 0x09, CHR 0x0A, CHR 0x0B, CHR 0x0C, CHR 0x0D,
     CHR 0x1C, CHR 0x1D, CHR 0x1E, CHR 0x1F, CHR 0x20, CHR 0x85, CHR 0xA0])"

text \<open>\<^verbatim>\<open>s.split(sep)\<close> for a separator of one character: never an empty list.\<close>

fun split_on_aux :: "char \<Rightarrow> string \<Rightarrow> string \<Rightarrow> string list" where
  "split_on_aux sep cur [] = [cur]"
| "split_on_aux sep cur (c # cs) =
     (if c = sep then cur # split_on_aux sep [] cs else split_on_aux sep (cur @ [c]) cs)"

definition split_on :: "char \<Rightarrow> string \<Rightarrow> string list" where
  "split_on sep s = split_on_aux sep [] s"

text \<open>\<^verbatim>\<open>s.split()\<close>: the maximal runs of characters that are not whitespace.\<close>

fun split_ws_aux :: "string \<Rightarrow> string \<Rightarrow> string list" where
  "split_ws_aux cur [] = (if cur = [] then [] else [cur])"
| "split_ws_aux cur (c # cs) =
     (if is_space c then (if cur = [] then split_ws_aux [] cs else cur # split_ws_aux [] cs)
      else split_ws_aux (cur @ [c]) cs)"

definition split_ws :: "string \<Rightarrow> string list" where
  "split_ws s = split_ws_aux [] s"

text \<open>\<^verbatim>\<open>s.strip()\<close>.\<close>

definition strip :: "string \<Rightarrow> string" where
  "strip s = rev (dropWhile is_space (rev (dropWhile is_space s)))"

text \<open>\<^verbatim>\<open>os.path.join(a, b)\<close> on POSIX.\<close>

definition path_join :: "string \<Rightarrow> string \<Rightarrow> string" where
  "path_join a b =
     (if startswith b ''/'' then b
      else if a = [] \<or> endswith a ''/'' then a @ b
      else a @ ''/'' @ b)"

subsection \<open>The file system, the log and the external calls\<close>

text \<open>
  A directory entry is addressed by the directory it is listed in and its name. The
  world the program acts on holds the entries, the existing directories, the records
  handed to the logger (with their level; the logger's level decides later which are
  printed) and the calls of \<^verbatim>\<open>subprocess.run\<close> made so far.
\<close>

datatype node = File string | Dir

type_synonym path = "string \<times> string"

datatype level = DEBUG | INFO | WARNING | ERROR

datatype msg =
    Span string string
  | SkippedThreshold string int
  | SkippedExists string
  | FingerprintRaised string int
  | FingerprintOutput string
  | FingerprintDone string int string
  | NotCreated string
  | Created string
  | ConcatSkipped string
  | MergeEnded string int
  | MergeCreated string int
  | Deleting string
  | RemoveError string
  | Started

datatype call = Framemd5 string | Concat string string

record world =
  files :: "(path \<times> node) list"
  dirs :: "string list"
  logs :: "(level \<times> msg) list"
  calls :: "call list"

definition logger :: "level \<Rightarrow> msg \<Rightarrow> world \<Rightarrow> world" where
  "logger l m w = w\<lparr>logs := logs w @ [(l, m)]\<rparr>"

text \<open>\<^verbatim>\<open>os.path.exists\<close> and \<^verbatim>\<open>os.path.isfile\<close> of an entry.\<close>

definition exists :: "world \<Rightarrow> path \<Rightarrow> bool" where
  "exists w p = (map_of (files w) p \<noteq> None)"

definition isfile :: "world \<Rightarrow> path \<Rightarrow> bool" where
  "isfile w p = (case map_of (files w) p of Some (File c) \<Rightarrow> True | _ \<Rightarrow> False)"

text \<open>\<^verbatim>\<open>sorted(os.listdir(d))\<close>: the names of the entries of \<open>d\<close>, by code point.\<close>

definition listdir :: "world \<Rightarrow> string \<Rightarrow> string list" where
  "listdir w d = remdups (map (snd \<circ> fst) (filter (\<lambda>e. fst (fst e) = d) (files w)))"

definition sorted_listdir :: "world \<Rightarrow> string \<Rightarrow> string list" where
  "sorted_listdir w d = sort (listdir w d)"

text \<open>
  \<^verbatim>\<open>open(p, 'w')\<close> followed by the writes and the close: the entry becomes a file with
  the text written; opening a directory raises.
\<close>

definition write_file :: "world \<Rightarrow> path \<Rightarrow> string \<Rightarrow> exn + world" where
  "write_file w p text =
     (case map_of (files w) p of
        Some Dir \<Rightarrow> Inl IsADirectoryError
      | _ \<Rightarrow> Inr (w\<lparr>files := AList.update p (File text) (files w)\<rparr>))"

text \<open>
  The result of \<^verbatim>\<open>subprocess.run\<close>: it raised, or a return code, the standard
  output and the standard error.
\<close>

datatype proc = Raised | Completed int string string

text \<open>
  The merge process: it raised, or it completed with a return code, having written
  the output file or not.
\<close>

datatype mproc = MRaised | MCompleted int "string option"

text \<open>
  What the module calls and does not define: Python's \<^verbatim>\<open>int\<close>, \<^verbatim>\<open>float\<close>
  (\<open>None\<close> is the ValueError), float multiplication and division by an integer, the text of a
  number under \<^verbatim>\<open>'{}'.format\<close>, \<^verbatim>\<open>datetime.strptime\<close> with the format
  \<^verbatim>\<open>%Y%m%d_%H%M%S\<close> (\<open>None\<close> is the ValueError), \<^verbatim>\<open>strftime\<close>, the two
  external processes, whether \<^verbatim>\<open>os.remove\<close> raises, and today's date. Every theorem
  below holds for all of them. A float is a value of the type \<open>'f\<close>; a date-time is the
  number of seconds since the start of the calendar, a date the number of days.
\<close>

record 'f env =
  py_int :: "string \<Rightarrow> int option"
  py_float :: "string \<Rightarrow> 'f option"
  py_mul :: "'f \<Rightarrow> int \<Rightarrow> exn + 'f"
  py_div :: "'f \<Rightarrow> int \<Rightarrow> exn + 'f"
  py_format :: "'f pynum \<Rightarrow> string"
  strptime :: "string \<Rightarrow> int option"
  strftime :: "string \<Rightarrow> int \<Rightarrow> string"
  ffmpeg_framemd5 :: "string \<Rightarrow> proc"
  ffmpeg_concat :: "(path \<times> node) list \<Rightarrow> string \<Rightarrow> string \<Rightarrow> mproc"
  remove_raises :: "path \<Rightarrow> bool"
  today :: int

definition date :: "int \<Rightarrow> int" where
  "date t = t div 86400"

record options =
  source_dir :: string
  work_dir :: string
  output_dir :: string
  consecutive_threshold :: int
  concat_threshold :: int
  retention :: int
  initial_impact :: bool
  no_output :: bool
  overwrite :: bool

section \<open>The recording catalogue and the session chunker\<close>

text \<open>
  \<^verbatim>\<open>PATTERN_RECORDINGS = r'(\d+_\d+)_([A-Z]+)\.(.+)'\<close>, applied with
  \<^verbatim>\<open>re.match\<close>: a prefix of the name has to match. Each \<^verbatim>\<open>\d+\<close> and the
  \<^verbatim>\<open>[A-Z]+\<close> is followed by a character outside its class, so only the longest run
  can match; \<^verbatim>\<open>.+\<close> takes every character up to the first newline.
\<close>

definition is_digit :: "char \<Rightarrow> bool" where
  "is_digit c = (c \<in> set ''0123456789'')"

definition is_upper :: "char \<Rightarrow> bool" where
  "is_upper c = (c \<in> set ''ABCDEFGHIJKLMNOPQRSTUVWXYZ'')"

text \<open>\<^verbatim>\<open>(\d+_\d+)\<close>: the group and the rest of the string.\<close>

definition match_stamp :: "string \<Rightarrow> (string \<times> string) option" where
  "match_stamp s =
     (let d1 = takeWhile is_digit s in
      if d1 = [] then None
      else (case dropWhile is_digit s of
              c # r \<Rightarrow>
                if c = CHR ''_'' then
                  (let d2 = takeWhile is_digit r in
                   if d2 = [] then None
                   else Some (d1 @ ''_'' @ d2, dropWhile is_digit r))
                else None
            | [] \<Rightarrow> None))"

text \<open>\<^verbatim>\<open>_([A-Z]+)\.(.+)\<close>: the two groups.\<close>

definition match_role_ext :: "string \<Rightarrow> (string \<times> string) option" where
  "match_role_ext s =
     (case s of
        c # r \<Rightarrow>
          if c = CHR ''_'' then
            (let role = takeWhile is_upper r in
             if role = [] then None
             else (case dropWhile is_upper r of
                     c' # r' \<Rightarrow>
                       if c' = CHR ''.'' then
                         (let e = takeWhile (\<lambda>x. x \<noteq> CHR 0x0A) r' in
                          if e = [] then None else Some (role, e))
                       else None
                   | [] \<Rightarrow> None))
          else None
      | [] \<Rightarrow> None)"

definition match_recording :: "string \<Rightarrow> (string \<times> string \<times> string) option" where
  "match_recording f =
     (case match_stamp f of
        None \<Rightarrow> None
      | Some (g1, r) \<Rightarrow>
          (case match_role_ext r of None \<Rightarrow> None | Some (g2, g3) \<Rightarrow> Some (g1, g2, g3)))"

text \<open>
  \<^verbatim>\<open>PATTERN_WORKFILES\<close> and \<^verbatim>\<open>PATTERN_OUTPUTFILES\<close>, both
  \<^verbatim>\<open>r'(\d+_\d+)-(\d+_\d+)_([A-Z]+)\.(.+)'\<close>.
\<close>

definition match_derived :: "string \<Rightarrow> (string \<times> string \<times> string \<times> string) option" where
  "match_derived f =
     (case match_stamp f of
        None \<Rightarrow> None
      | Some (g1, r) \<Rightarrow>
          (case r of
             c # r1 \<Rightarrow>
               if c = CHR ''-'' then
                 (case match_stamp r1 of
                    None \<Rightarrow> None
                  | Some (g2, r2) \<Rightarrow>
                      (case match_role_ext r2 of
                         None \<Rightarrow> None
                       | Some (g3, g4) \<Rightarrow> Some (g1, g2, g3, g4)))
               else None
           | [] \<Rightarrow> None))"

text \<open>The dictionary \<^verbatim>\<open>obj\<close> built for every recording.\<close>

record recording =
  datetime :: int
  rtype :: string
  ext :: string
  dir :: string
  filename :: string

type_synonym chunk = "recording list"

text \<open>
  The counting loop of \<^verbatim>\<open>create_chunks\<close>: \<^verbatim>\<open>impact_flag\<close> after the
  items of the current chunk.
\<close>

definition impact_flag :: "chunk \<Rightarrow> int" where
  "impact_flag c = foldl (\<lambda>n item. if startswith (rtype item) ''I'' then n + 1 else n) 0 c"

text \<open>
  The body of the loop of \<^verbatim>\<open>create_chunks\<close> from the first test on
  \<^verbatim>\<open>chunks\<close>. The seconds between two date-times of whole seconds are an integer,
  which \<^verbatim>\<open>int(duration.total_seconds())\<close> returns as it is. Reading
  \<^verbatim>\<open>chunks[-1][-1]\<close> of an empty chunk raises.
\<close>

definition append_last :: "chunk list \<Rightarrow> recording \<Rightarrow> chunk list" where
  "append_last chunks obj = butlast chunks @ [last chunks @ [obj]]"

definition new_chunk :: "chunk list \<Rightarrow> recording \<Rightarrow> chunk list" where
  "new_chunk chunks obj = chunks @ [[obj]]"

definition add_recording :: "options \<Rightarrow> chunk list \<Rightarrow> recording \<Rightarrow> exn + chunk list" where
  "add_recording opts chunks obj =
     (if length chunks = 0 then Inr (new_chunk chunks obj)
      else if last chunks = [] then Inl IndexError
      else if datetime obj = datetime (last (last chunks)) then Inr (append_last chunks obj)
      else
        (let duration = datetime obj - datetime (last (last chunks)) in
         if duration \<le> consecutive_threshold opts then
           (if initial_impact opts then Inr (append_last chunks obj)
            else if int (length (last chunks)) = impact_flag (last chunks) then
              (if startswith (rtype obj) ''I'' then Inr (append_last chunks obj)
               else Inr (new_chunk chunks obj))
            else Inr (append_last chunks obj))
         else Inr (new_chunk chunks obj)))"

text \<open>
  One file name of the listing: skipped (\<open>Inr None\<close>) when it is no regular file or does
  not match, a ValueError when the time stamp does not parse, else the recording.
\<close>

definition read_recording :: "'f env \<Rightarrow> options \<Rightarrow> world \<Rightarrow> string \<Rightarrow> exn + recording option" where
  "read_recording E opts w f =
     (if \<not> isfile w (source_dir opts, f) then Inr None
      else (case match_recording f of
              None \<Rightarrow> Inr None
            | Some (g1, g2, g3) \<Rightarrow>
                (case strptime E g1 of
                   None \<Rightarrow> Inl ValueError
                 | Some t \<Rightarrow>
                     Inr (Some \<lparr>datetime = t, rtype = g2, ext = g3,
                                dir = source_dir opts, filename = f\<rparr>))))"

fun chunks_loop :: "'f env \<Rightarrow> options \<Rightarrow> world \<Rightarrow> chunk list \<Rightarrow> string list \<Rightarrow> exn + chunk list" where
  "chunks_loop E opts w chunks [] = Inr chunks"
| "chunks_loop E opts w chunks (f # fs) =
     (case read_recording E opts w f of
        Inl e \<Rightarrow> Inl e
      | Inr None \<Rightarrow> chunks_loop E opts w chunks fs
      | Inr (Some obj) \<Rightarrow>
          (case add_recording opts chunks obj of
             Inl e \<Rightarrow> Inl e
           | Inr chunks' \<Rightarrow> chunks_loop E opts w chunks' fs))"

definition create_chunks :: "'f env \<Rightarrow> options \<Rightarrow> world \<Rightarrow> exn + chunk list" where
  "create_chunks E opts w = chunks_loop E opts w [] (sorted_listdir w (source_dir opts))"

text \<open>The same loop body over recordings already read.\<close>

fun add_all :: "options \<Rightarrow> chunk list \<Rightarrow> recording list \<Rightarrow> exn + chunk list" where
  "add_all opts chunks [] = Inr chunks"
| "add_all opts chunks (obj # objs) =
     (case add_recording opts chunks obj of
        Inl e \<Rightarrow> Inl e
      | Inr chunks' \<Rightarrow> add_all opts chunks' objs)"

section \<open>Processing the chunks\<close>

subsection \<open>The overlap resolver: \<^verbatim>\<open>create_concat_file\<close>\<close>

text \<open>
  A line \<^verbatim>\<open>#tb ...\<close>:
  \<^verbatim>\<open>tb_num, tb_den = list(map(int, line.split()[-1].split('/')))\<close>.
  The line starts with \<^verbatim>\<open>#tb\<close>, so \<^verbatim>\<open>line.split()\<close> is not empty.
\<close>

definition parse_tb :: "'f env \<Rightarrow> string \<Rightarrow> exn + (int \<times> int)" where
  "parse_tb E line =
     (case those (map (py_int E) (split_on CHR ''/'' (last (split_ws line)))) of
        None \<Rightarrow> Inl ValueError
      | Some [n, d] \<Rightarrow> Inr (n, d)
      | Some _ \<Rightarrow> Inl ValueError)"

text \<open>
  A frame line:
  \<^verbatim>\<open>md5, pts_time = splitted[-1].strip(), float(splitted[2]) * tb_num / tb_den\<close>.
\<close>

definition parse_frame :: "'f env \<Rightarrow> int \<Rightarrow> int \<Rightarrow> string \<Rightarrow> exn + (string \<times> 'f)" where
  "parse_frame E tb_num tb_den line =
     (let splitted = split_on CHR '','' line in
      if length splitted < 3 then Inl IndexError
      else (case py_float E (splitted ! 2) of
              None \<Rightarrow> Inl ValueError
            | Some raw_pts \<Rightarrow>
                (case py_mul E raw_pts tb_num of
                   Inl e \<Rightarrow> Inl e
                 | Inr ticks \<Rightarrow>
                     (case py_div E ticks tb_den of
                        Inl e \<Rightarrow> Inl e
                      | Inr pts_time \<Rightarrow> Inr (strip (last splitted), pts_time)))))"

text \<open>
  The loop over the lines of the output. Its variables are \<^verbatim>\<open>inpoint\<close>,
  \<^verbatim>\<open>tb_num\<close>, \<^verbatim>\<open>tb_den\<close> and \<^verbatim>\<open>md5\<close>; \<^verbatim>\<open>md5\<close> is
  unbound (\<open>None\<close>) until a frame line has been read, in this file or an earlier one.
  \<^verbatim>\<open>md5_last_frame\<close> is \<open>None\<close> for Python's \<^verbatim>\<open>None\<close>.
\<close>

fun scan_lines ::
  "'f env \<Rightarrow> string option \<Rightarrow> 'f pynum \<times> int \<times> int \<times> string option \<Rightarrow> string list \<Rightarrow>
   exn + ('f pynum \<times> int \<times> int \<times> string option)" where
  "scan_lines E md5_last_frame vars [] = Inr vars"
| "scan_lines E md5_last_frame (inpoint, tb_num, tb_den, md5) (line # lines) =
     (if startswith line ''#tb'' then
        (case parse_tb E line of
           Inl e \<Rightarrow> Inl e
         | Inr (n, d) \<Rightarrow> scan_lines E md5_last_frame (inpoint, n, d, md5) lines)
      else if \<not> startswith line ''#'' \<and> length line > 0 then
        (case parse_frame E tb_num tb_den line of
           Inl e \<Rightarrow> Inl e
         | Inr (h, pts_time) \<Rightarrow>
             scan_lines E md5_last_frame
               (if Some h = md5_last_frame then PyFloat pts_time else inpoint,
                tb_num, tb_den, Some h) lines)
      else scan_lines E md5_last_frame (inpoint, tb_num, tb_den, md5) lines)"

text \<open>
  The variables of the loop over the videos that live across iterations:
  \<^verbatim>\<open>records\<close>, \<^verbatim>\<open>md5_last_frame\<close>, \<^verbatim>\<open>md5\<close> and
  \<^verbatim>\<open>result\<close> (\<open>None\<close> while unbound).
\<close>

record 'f cstate =
  records :: "(string \<times> 'f pynum) list"
  md5_last_frame :: "string option"
  md5 :: "string option"
  result :: "(int \<times> string \<times> string) option"

definition video_path :: "recording \<Rightarrow> string" where
  "video_path video = path_join (dir video) (filename video)"

text \<open>
  One iteration. When \<^verbatim>\<open>subprocess.run\<close> raises, the handler formats
  \<^verbatim>\<open>result.returncode\<close>: of the previous video, or an UnboundLocalError.
\<close>

definition concat_step ::
  "'f env \<Rightarrow> recording \<Rightarrow> 'f cstate \<times> world \<Rightarrow> exn + ('f cstate \<times> world)" where
  "concat_step E video sw =
     (let st = fst sw; w = (snd sw)\<lparr>calls := calls (snd sw) @ [Framemd5 (video_path video)]\<rparr> in
      case ffmpeg_framemd5 E (video_path video) of
        Raised \<Rightarrow>
          (case result st of
             None \<Rightarrow> Inl UnboundLocalError
           | Some (rc, out, err) \<Rightarrow>
               Inr (st, logger ERROR (FingerprintOutput err)
                          (logger ERROR (FingerprintOutput out)
                             (logger ERROR (FingerprintRaised (filename video) rc) w))))
      | Completed rc out err \<Rightarrow>
          (case scan_lines E (md5_last_frame st) (PyInt 0, 1, 1, md5 st) (split_on CHR 0x0A out) of
             Inl e \<Rightarrow> Inl e
           | Inr (inpoint, tb_num, tb_den, m) \<Rightarrow>
               (case m of
                  None \<Rightarrow> Inl UnboundLocalError
                | Some h \<Rightarrow>
                    Inr (\<lparr>records = records st @ [(video_path video, inpoint)],
                          md5_last_frame = Some h, md5 = Some h,
                          result = Some (rc, out, err)\<rparr>,
                         logger (if rc \<noteq> 0 then WARNING else DEBUG)
                           (FingerprintDone (filename video) rc (py_format E inpoint)) w))))"

fun concat_loop ::
  "'f env \<Rightarrow> recording list \<Rightarrow> 'f cstate \<times> world \<Rightarrow> exn + ('f cstate \<times> world)" where
  "concat_loop E [] sw = Inr sw"
| "concat_loop E (video # videos) sw =
     (case concat_step E video sw of
        Inl e \<Rightarrow> Inl e
      | Inr sw' \<Rightarrow> concat_loop E videos sw')"

definition concat_init :: "'f cstate" where
  "concat_init = \<lparr>records = [], md5_last_frame = None, md5 = None, result = None\<rparr>"

text \<open>The text of the join manifest: two lines for every record.\<close>

definition manifest_text :: "'f env \<Rightarrow> (string \<times> 'f pynum) list \<Rightarrow> string" where
  "manifest_text E rs =
     concat (map (\<lambda>r. ''file '' @ [CHR 0x27] @ fst r @ [CHR 0x27, CHR 0x0A] @
                       ''inpoint '' @ py_format E (snd r) @ [CHR 0x0A]) rs)"

text \<open>The value returned is \<open>None\<close> for a bare \<^verbatim>\<open>return\<close>.\<close>

definition create_concat_file ::
  "'f env \<Rightarrow> string \<Rightarrow> string \<Rightarrow> recording list \<Rightarrow> bool \<Rightarrow> bool \<Rightarrow> world \<Rightarrow>
   exn + (bool option \<times> world)" where
  "create_concat_file E path filename' videos no_output' overwrite' w =
     (if exists w (path, filename') \<and> \<not> overwrite' then
        Inr (None, logger INFO (SkippedExists filename') w)
      else
        (case concat_loop E videos (concat_init, w) of
           Inl e \<Rightarrow> Inl e
         | Inr (st, w1) \<Rightarrow>
             if no_output' then Inr (None, logger INFO (NotCreated filename') w1)
             else (case write_file w1 (path, filename') (manifest_text E (records st)) of
                     Inl e \<Rightarrow> Inl e
                   | Inr w2 \<Rightarrow> Inr (Some True, logger INFO (Created filename') w2))))"

subsection \<open>The concatenation driver\<close>

text \<open>
  When \<^verbatim>\<open>subprocess.run\<close> raises, the handler logs the exception and then reads
  \<^verbatim>\<open>result\<close>, which is unbound.
\<close>

definition create_output_file ::
  "'f env \<Rightarrow> string \<Rightarrow> string \<Rightarrow> string \<Rightarrow> string \<Rightarrow> bool \<Rightarrow> bool \<Rightarrow> world \<Rightarrow>
   exn + (bool option \<times> world)" where
  "create_output_file E path_work concat_filename path_output output_filename no_output' overwrite' w =
     (if exists w (path_output, output_filename) \<and> \<not> overwrite' then
        Inr (Some True, logger INFO (ConcatSkipped output_filename) w)
      else if no_output' then Inr (None, logger INFO (NotCreated output_filename) w)
      else
        (let w1 = w\<lparr>calls := calls w @
                    [Concat (path_join path_work concat_filename)
                            (path_join path_output output_filename)]\<rparr> in
         case ffmpeg_concat E (files w) (path_join path_work concat_filename)
                (path_join path_output output_filename) of
           MRaised \<Rightarrow> Inl UnboundLocalError
         | MCompleted rc written \<Rightarrow>
             (let w2 = (case written of
                          None \<Rightarrow> w1
                        | Some media \<Rightarrow>
                            w1\<lparr>files := AList.update (path_output, output_filename) (File media)
                                           (files w1)\<rparr>) in
              if rc \<noteq> 0 then Inr (Some False, logger WARNING (MergeEnded output_filename rc) w2)
              else Inr (Some True, logger INFO (MergeCreated output_filename rc) w2))))"

definition process_videos ::
  "'f env \<Rightarrow> options \<Rightarrow> string \<Rightarrow> string \<Rightarrow> string \<Rightarrow> recording list \<Rightarrow> string \<Rightarrow> world \<Rightarrow>
   exn + (bool \<times> world)" where
  "process_videos E opts time_start time_end camera videos title w =
     (let concat_filename = time_start @ ''-'' @ time_end @ ''_'' @ camera @ ''.con'';
          output_filename = time_start @ ''-'' @ time_end @ ''_'' @ camera @ ''.mp4'' in
      if int (length videos) \<le> concat_threshold opts then
        Inr (True, logger INFO (SkippedThreshold title (concat_threshold opts)) w)
      else
        (case create_concat_file E (work_dir opts) concat_filename videos
                (no_output opts) (overwrite opts) w of
           Inl e \<Rightarrow> Inl e
         | Inr (r1, w1) \<Rightarrow>
             (case create_output_file E (work_dir opts) concat_filename (output_dir opts)
                     output_filename (no_output opts) (overwrite opts) w1 of
                Inl e \<Rightarrow> Inl e
              | Inr (r2, w2) \<Rightarrow> Inr (True, w2))))"

text \<open>The loop of \<^verbatim>\<open>process_chunks\<close> that fills the two lists of a chunk.\<close>

fun split_videos ::
  "recording list \<Rightarrow> recording list \<Rightarrow> chunk \<Rightarrow> recording list \<times> recording list" where
  "split_videos videos_f videos_r [] = (videos_f, videos_r)"
| "split_videos videos_f videos_r (item # items) =
     (if ext item = ''mp4'' then
        (if endswith (rtype item) ''F'' then split_videos (videos_f @ [item]) videos_r items
         else if endswith (rtype item) ''R'' then split_videos videos_f (videos_r @ [item]) items
         else split_videos videos_f videos_r items)
      else split_videos videos_f videos_r items)"

definition chunk_title :: "'f env \<Rightarrow> chunk \<Rightarrow> string" where
  "chunk_title E chunk =
     (if date (datetime (hd chunk)) = date (datetime (last chunk)) then
        strftime E ''%Y/%m/%d %H:%M:%S'' (datetime (hd chunk)) @ '' - '' @
        strftime E ''%H:%M:%S'' (datetime (last chunk))
      else
        strftime E ''%Y/%m/%d %H:%M:%S'' (datetime (hd chunk)) @ '' - '' @
        strftime E ''%Y/%m/%d %H:%M:%S'' (datetime (last chunk)))"

text \<open>\<^verbatim>\<open>chunk[0]\<close> of an empty chunk raises; a false result ends the loop.\<close>

fun process_chunks :: "'f env \<Rightarrow> options \<Rightarrow> chunk list \<Rightarrow> world \<Rightarrow> exn + world" where
  "process_chunks E opts [] w = Inr w"
| "process_chunks E opts (chunk # chunks) w =
     (if chunk = [] then Inl IndexError
      else
        (let time_start = strftime E ''%Y%m%d_%H%M%S'' (datetime (hd chunk));
             time_end = strftime E ''%Y%m%d_%H%M%S'' (datetime (last chunk));
             w0 = logger DEBUG (Span time_start time_end) w;
             title = chunk_title E chunk;
             videos = split_videos [] [] chunk in
         case process_videos E opts time_start time_end ''F'' (fst videos)
                (title @ '' Front'') w0 of
           Inl e \<Rightarrow> Inl e
         | Inr (res1, w1) \<Rightarrow>
             if \<not> res1 then Inr w1
             else (case process_videos E opts time_start time_end ''R'' (snd videos)
                          (title @ '' Rear'') w1 of
                     Inl e \<Rightarrow> Inl e
                   | Inr (res2, w2) \<Rightarrow>
                       if \<not> res2 then Inr w2 else process_chunks E opts chunks w2)))"

section \<open>The retention sweeper and the whole run\<close>

text \<open>\<^verbatim>\<open>datetime.timedelta(days=n)\<close>: the days, or an OverflowError.\<close>

definition timedelta_days :: "int \<Rightarrow> exn + int" where
  "timedelta_days n = (if \<bar>n\<bar> \<le> 999999999 then Inr n else Inl OverflowError)"

fun cleanup_loop ::
  "'f env \<Rightarrow> string \<Rightarrow> (string \<Rightarrow> (string \<times> string \<times> string \<times> string) option) \<Rightarrow> int \<Rightarrow> int \<Rightarrow>
   world \<Rightarrow> string list \<Rightarrow> exn + world" where
  "cleanup_loop E directory filepattern today_obj retention_days w [] = Inr w"
| "cleanup_loop E directory filepattern today_obj retention_days w (f # fs) =
     (if \<not> isfile w (directory, f) then
        cleanup_loop E directory filepattern today_obj retention_days w fs
      else
        (case filepattern f of
           None \<Rightarrow> cleanup_loop E directory filepattern today_obj retention_days w fs
         | Some (g1, g2, g3, g4) \<Rightarrow>
             (case strptime E g1 of
                None \<Rightarrow> Inl ValueError
              | Some datetime_obj \<Rightarrow>
                  (case timedelta_days retention_days of
                     Inl e \<Rightarrow> Inl e
                   | Inr limit \<Rightarrow>
                       if today_obj - date datetime_obj \<le> limit then
                         cleanup_loop E directory filepattern today_obj retention_days w fs
                       else
                         (let w1 = logger INFO (Deleting (path_join directory f)) w in
                          if remove_raises E (directory, f) then
                            cleanup_loop E directory filepattern today_obj retention_days
                              (logger ERROR (RemoveError (path_join directory f)) w1) fs
                          else
                            cleanup_loop E directory filepattern today_obj retention_days
                              (w1\<lparr>files := AList.delete (directory, f) (files w1)\<rparr>) fs)))))"

definition cleanup_files ::
  "'f env \<Rightarrow> string \<Rightarrow> (string \<Rightarrow> (string \<times> string \<times> string \<times> string) option) \<Rightarrow> int \<Rightarrow> int \<Rightarrow>
   world \<Rightarrow> exn + world" where
  "cleanup_files E directory filepattern today_obj retention_days w =
     cleanup_loop E directory filepattern today_obj retention_days w (sorted_listdir w directory)"

definition cleanup :: "'f env \<Rightarrow> options \<Rightarrow> world \<Rightarrow> exn + world" where
  "cleanup E opts w =
     (case cleanup_files E (work_dir opts) match_derived (today E) (retention opts) w of
        Inl e \<Rightarrow> Inl e
      | Inr w1 \<Rightarrow> cleanup_files E (output_dir opts) match_derived (today E) (retention opts) w1)"

text \<open>\<^verbatim>\<open>run\<close>; \<^verbatim>\<open>sys.exit()\<close> raises SystemExit.\<close>

definition run :: "'f env \<Rightarrow> options \<Rightarrow> world \<Rightarrow> exn + world" where
  "run E opts w =
     (let w0 = logger DEBUG Started w in
      if source_dir opts \<notin> set (dirs w0) then Inl SystemExit
      else if work_dir opts \<notin> set (dirs w0) then Inl SystemExit
      else if output_dir opts \<notin> set (dirs w0) then Inl SystemExit
      else
        (case create_chunks E opts w0 of
           Inl e \<Rightarrow> Inl e
         | Inr chunks \<Rightarrow>
             (case process_chunks E opts chunks w0 of
                Inl e \<Rightarrow> Inl e
              | Inr w1 \<Rightarrow> cleanup E opts w1)))"

section \<open>Example inputs\<close>

text \<open>
  The inputs at which the theorems below are instantiated. Date-times are seconds
  since 0001-01-01 00:00:00: 2023-01-01 10:00:00 is 63808164000.
\<close>

definition sample_opts :: options where
  "sample_opts =
     \<lparr>source_dir = ''/rec'', work_dir = ''/work'', output_dir = ''/out'',
      consecutive_threshold = 64, concat_threshold = 2, retention = 14,
      initial_impact = False, no_output = False, overwrite = False\<rparr>"

definition sample_rec :: "string \<Rightarrow> int \<Rightarrow> string \<Rightarrow> string \<Rightarrow> recording" where
  "sample_rec stamp t role e =
     \<lparr>datetime = t, rtype = role, ext = e, dir = ''/rec'',
      filename = stamp @ ''_'' @ role @ ''.'' @ e\<rparr>"

definition impact_100000 :: recording where
  "impact_100000 = sample_rec ''20230101_100000'' 63808164000 ''IF'' ''mp4''"

definition impact_100020 :: recording where
  "impact_100020 = sample_rec ''20230101_100020'' 63808164020 ''IF'' ''mp4''"

definition normal_100040 :: recording where
  "normal_100040 = sample_rec ''20230101_100040'' 63808164040 ''NF'' ''mp4''"

definition normal_100104 :: recording where
  "normal_100104 = sample_rec ''20230101_100104'' 63808164064 ''NF'' ''mp4''"

definition normal_100000 :: recording where
  "normal_100000 = sample_rec ''20230101_100000'' 63808164000 ''NF'' ''mp4''"

definition rear_100000 :: recording where
  "rear_100000 = sample_rec ''20230101_100000'' 63808164000 ''NR'' ''mp4''"

definition gps_100000 :: recording where
  "gps_100000 = sample_rec ''20230101_100000'' 63808164000 ''NF'' ''gps''"

definition normal_100030 :: recording where
  "normal_100030 = sample_rec ''20230101_100030'' 63808164030 ''NF'' ''mp4''"

definition normal_100100 :: recording where
  "normal_100100 = sample_rec ''20230101_100100'' 63808164060 ''NF'' ''mp4''"

definition normal_100200 :: recording where
  "normal_100200 = sample_rec ''20230101_100200'' 63808164120 ''NF'' ''mp4''"

text \<open>
  An environment for the examples. Its \<^verbatim>\<open>int\<close> and \<^verbatim>\<open>float\<close> read the
  decimal numerals without sign, point or exponent (white space around them allowed),
  floats are rational numbers with exact arithmetic, and the text of a float is given
  for whole values, the only ones the examples print.
\<close>

fun dec_aux :: "nat \<Rightarrow> string \<Rightarrow> nat option" where
  "dec_aux acc [] = Some acc"
| "dec_aux acc (c # cs) =
     (if is_digit c then dec_aux (10 * acc + (of_char c - 48)) cs else None)"

definition dec_nat :: "string \<Rightarrow> nat option" where
  "dec_nat s = (if strip s = [] then None else dec_aux 0 (strip s))"

function show_nat :: "nat \<Rightarrow> string" where
  "show_nat n =
     (if n < 10 then [''0123456789'' ! n]
      else show_nat (n div 10) @ [''0123456789'' ! (n mod 10)])"
  by pat_completeness auto
termination
  by (relation "measure id") auto

declare show_nat.simps [simp del]

definition sample_format :: "rat pynum \<Rightarrow> string" where
  "sample_format v =
     (case v of
        PyInt i \<Rightarrow> (if i < 0 then ''-'' @ show_nat (nat (- i)) else show_nat (nat i))
      | PyFloat x \<Rightarrow>
          (if x < 0 then ''-'' @ show_nat (nat (- \<lfloor>x\<rfloor>)) @ ''.0''
           else show_nat (nat \<lfloor>x\<rfloor>) @ ''.0''))"

definition sample_times :: "(string \<times> int) list" where
  "sample_times =
     [(''20230101_100000'', 63808164000), (''20230101_100030'', 63808164030),
      (''20230101_100100'', 63808164060), (''20230215_080000'', 63812044800),
      (''20230216_080000'', 63812131200)]"

definition sample_strftime :: "string \<Rightarrow> int \<Rightarrow> string" where
  "sample_strftime fmt t =
     (case map_of (map (\<lambda>p. (snd p, fst p)) sample_times) t of
        None \<Rightarrow> []
      | Some s \<Rightarrow>
          (let ymd = take 4 s @ ''/'' @ take 2 (drop 4 s) @ ''/'' @ take 2 (drop 6 s);
               hms = take 2 (drop 9 s) @ '':'' @ take 2 (drop 11 s) @ '':'' @ drop 13 s in
           if fmt = ''%Y%m%d_%H%M%S'' then s
           else if fmt = ''%H:%M:%S'' then hms
           else ymd @ '' '' @ hms))"

definition text_of_lines :: "string list \<Rightarrow> string" where
  "text_of_lines ls = concat (map (\<lambda>l. l @ [CHR 0x0A]) ls)"

definition output_100000 :: string where
  "output_100000 = text_of_lines
     [''#format: frame checksums'', ''#tb 0: 1/1000'',
      ''#stream#, dts,        pts, duration,     size, hash'',
      ''0,          0,          0,       33,     4096, aa'',
      ''0,       1000,       1000,       33,     4096, bb'']"

definition output_100030 :: string where
  "output_100030 = text_of_lines
     [''#format: frame checksums'', ''#tb 0: 1/1000'',
      ''#stream#, dts,        pts, duration,     size, hash'',
      ''0,          0,          0,       33,     4096, bb'',
      ''0,       1000,       1000,       33,     4096, cc'',
      ''0,       2000,       2000,       33,     4096, bb'',
      ''0,       3000,       3000,       33,     4096, dd'']"

definition output_100100 :: string where
  "output_100100 = text_of_lines
     [''#format: frame checksums'', ''#tb 0: 1/1000'',
      ''#stream#, dts,        pts, duration,     size, hash'',
      ''0,          0,          0,       33,     4096, ee'']"

definition sample_framemd5 :: "string \<Rightarrow> proc" where
  "sample_framemd5 p =
     (if p = ''/rec/20230101_100000_NF.mp4'' then Completed 0 output_100000 []
      else if p = ''/rec/20230101_100030_NF.mp4'' then Completed 1 output_100030 ''error''
      else if p = ''/rec/20230101_100100_NF.mp4'' then Completed 0 output_100100 []
      else if p = ''/rec/20230101_100104_NF.mp4'' then Completed 1 [] ''error''
      else Raised)"

definition sample_env :: "rat env" where
  "sample_env =
     \<lparr>py_int = (\<lambda>s. map_option int (dec_nat s)),
      py_float = (\<lambda>s. map_option of_nat (dec_nat s)),
      py_mul = (\<lambda>x n. Inr (x * of_int n)),
      py_div = (\<lambda>x d. if d = 0 then Inl ZeroDivisionError else Inr (x / of_int d)),
      py_format = sample_format,
      strptime = map_of sample_times,
      strftime = sample_strftime,
      ffmpeg_framemd5 = sample_framemd5,
      ffmpeg_concat = (\<lambda>fs manifest out. MCompleted 0 (Some ''media'')),
      remove_raises = (\<lambda>p. False),
      today = 738580\<rparr>"

definition sample_world :: world where
  "sample_world =
     \<lparr>files =
        [((''/rec'', ''20230101_100100_NF.mp4''), File []),
         ((''/rec'', ''20230101_100000_NF.mp4''), File []),
         ((''/rec'', ''20230101_100030_NF.mp4''), File []),
         ((''/rec'', ''20230101_100000_NF.gps''), File []),
         ((''/rec'', ''notes.txt''), File []),
         ((''/rec'', ''20230101_100000_NX.mp4''), Dir)],
      dirs = [''/rec'', ''/work'', ''/out''], logs = [], calls = []\<rparr>"

text \<open>The loop variables and the world after the first example video.\<close>

definition state_after_100000 :: "rat cstate" where
  "state_after_100000 =
     \<lparr>records = [(''/rec/20230101_100000_NF.mp4'', PyInt 0)],
      md5_last_frame = Some ''bb'', md5 = Some ''bb'',
      result = Some (0, output_100000, [])\<rparr>"

definition world_after_100000 :: world where
  "world_after_100000 =
     logger DEBUG (FingerprintDone ''20230101_100000_NF.mp4'' 0 ''0'')
       (sample_world\<lparr>calls := [Framemd5 ''/rec/20230101_100000_NF.mp4'']\<rparr>)"

text \<open>
  The chunk of the example directory, an interior-camera recording (role \<^verbatim>\<open>NI\<close>),
  what a run over the example directory logs and starts, and the world it leaves before
  and after the retention sweep.
\<close>

definition sample_chunk :: chunk where
  "sample_chunk = [gps_100000, normal_100000, normal_100030, normal_100100]"

definition interior_100000 :: recording where
  "interior_100000 = sample_rec ''20230101_100000'' 63808164000 ''NI'' ''mp4''"

definition sample_manifest :: string where
  "sample_manifest =
     manifest_text sample_env
       [(''/rec/20230101_100000_NF.mp4'', PyInt 0),
        (''/rec/20230101_100030_NF.mp4'', PyFloat 2),
        (''/rec/20230101_100100_NF.mp4'', PyInt 0)]"

definition process_logs :: "(level \<times> msg) list" where
  "process_logs =
     [(DEBUG, Span ''20230101_100000'' ''20230101_100100''),
      (DEBUG, FingerprintDone ''20230101_100000_NF.mp4'' 0 ''0''),
      (WARNING, FingerprintDone ''20230101_100030_NF.mp4'' 1 ''2.0''),
      (DEBUG, FingerprintDone ''20230101_100100_NF.mp4'' 0 ''0''),
      (INFO, Created ''20230101_100000-20230101_100100_F.con''),
      (INFO, MergeCreated ''20230101_100000-20230101_100100_F.mp4'' 0),
      (INFO, SkippedThreshold ''2023/01/01 10:00:00 - 10:01:00 Rear'' 2)]"

definition process_calls :: "call list" where
  "process_calls =
     [Framemd5 ''/rec/20230101_100000_NF.mp4'', Framemd5 ''/rec/20230101_100030_NF.mp4'',
      Framemd5 ''/rec/20230101_100100_NF.mp4'',
      Concat ''/work/20230101_100000-20230101_100100_F.con''
             ''/out/20230101_100000-20230101_100100_F.mp4'']"

definition sweep_logs :: "(level \<times> msg) list" where
  "sweep_logs =
     [(INFO, Deleting ''/work/20230101_100000-20230101_100100_F.con''),
      (INFO, Deleting ''/out/20230101_100000-20230101_100100_F.mp4'')]"

definition world_processed :: "(level \<times> msg) list \<Rightarrow> call list \<Rightarrow> world" where
  "world_processed l c =
     \<lparr>files = files sample_world @
        [((''/work'', ''20230101_100000-20230101_100100_F.con''), File sample_manifest),
         ((''/out'', ''20230101_100000-20230101_100100_F.mp4''), File ''media'')],
      dirs = [''/rec'', ''/work'', ''/out''],
      logs = l @ process_logs, calls = c @ process_calls\<rparr>"

definition world_after_run :: world where
  "world_after_run =
     sample_world\<lparr>logs := [(DEBUG, Started)] @ process_logs @ sweep_logs,
                  calls := process_calls\<rparr>"

text \<open>
  An output directory with one file dated 14 days before the example's today
  (2023-03-02, day 738580) and one dated 15 days before it, and what the sweep with the
  retention 14 leaves of it.
\<close>

definition sweep_world :: world where
  "sweep_world =
     \<lparr>files =
        [((''/out'', ''20230216_080000-20230216_083000_F.mp4''), File ''media''),
         ((''/out'', ''20230215_080000-20230215_083000_F.mp4''), File ''media'')],
      dirs = [''/rec'', ''/work'', ''/out''], logs = [], calls = []\<rparr>"

definition sweep_world_after :: world where
  "sweep_world_after =
     \<lparr>files = [((''/out'', ''20230216_080000-20230216_083000_F.mp4''), File ''media'')],
      dirs = [''/rec'', ''/work'', ''/out''],
      logs = [(INFO, Deleting ''/out/20230215_080000-20230215_083000_F.mp4'')],
      calls = []\<rparr>"

section \<open>Notions of the specification\<close>

text \<open>
  The frames a fingerprint output denotes, in the order of its lines: for every frame
  line its hash (the last field, stripped) and its presentation time, the raw time stamp
  (field 2) times \<^verbatim>\<open>tb_num\<close> divided by \<^verbatim>\<open>tb_den\<close>, under the time base
  declared last before the line (1/1 when none is). A line that does not parse is the
  exception the program raises there.
\<close>

fun frames_of :: "'f env \<Rightarrow> int \<Rightarrow> int \<Rightarrow> string list \<Rightarrow> exn + (string \<times> 'f) list" where
  "frames_of E tb_num tb_den [] = Inr []"
| "frames_of E tb_num tb_den (line # lines) =
     (if startswith line ''#tb'' then
        (case parse_tb E line of
           Inl e \<Rightarrow> Inl e
         | Inr (n, d) \<Rightarrow> frames_of E n d lines)
      else if \<not> startswith line ''#'' \<and> length line > 0 then
        (case parse_frame E tb_num tb_den line of
           Inl e \<Rightarrow> Inl e
         | Inr fr \<Rightarrow>
             (case frames_of E tb_num tb_den lines of
                Inl e \<Rightarrow> Inl e
              | Inr frs \<Rightarrow> Inr (fr # frs)))
      else frames_of E tb_num tb_den lines)"

definition output_frames :: "'f env \<Rightarrow> string \<Rightarrow> exn + (string \<times> 'f) list" where
  "output_frames E out = frames_of E 1 1 (split_on CHR 0x0A out)"

text \<open>
  The in-point the claims describe: 0 when no frame has the hash \<open>h\<close>, else the
  presentation time of the last frame that has it.
\<close>

definition last_match :: "string \<Rightarrow> (string \<times> 'f) list \<Rightarrow> 'f pynum" where
  "last_match h frs =
     (case filter (\<lambda>fr. fst fr = h) frs of
        [] \<Rightarrow> PyInt 0
      | m # ms \<Rightarrow> PyFloat (snd (last (m # ms))))"

text \<open>The trim list \<^verbatim>\<open>create_concat_file\<close> computes for a list of videos.\<close>

definition resolve_overlaps ::
  "'f env \<Rightarrow> recording list \<Rightarrow> world \<Rightarrow> exn + (string \<times> 'f pynum) list" where
  "resolve_overlaps E videos w =
     (case concat_loop E videos (concat_init, w) of
        Inl e \<Rightarrow> Inl e
      | Inr sw \<Rightarrow> Inr (records (fst sw)))"

text \<open>
  The name \<^verbatim>\<open>process_videos\<close> gives the manifest (suffix \<^verbatim>\<open>.con\<close>) and the
  output (suffix \<^verbatim>\<open>.mp4\<close>) of a chunk and a camera; and the state in which a run
  has nothing left to do for a chunk: for each camera whose list exceeds the threshold,
  the manifest and the output exist.
\<close>

definition session_name :: "'f env \<Rightarrow> chunk \<Rightarrow> string \<Rightarrow> string \<Rightarrow> string" where
  "session_name E chunk camera suffix =
     strftime E ''%Y%m%d_%H%M%S'' (datetime (hd chunk)) @ ''-'' @
     strftime E ''%Y%m%d_%H%M%S'' (datetime (last chunk)) @ ''_'' @ camera @ suffix"

definition camera_done :: "'f env \<Rightarrow> options \<Rightarrow> world \<Rightarrow> chunk \<Rightarrow> string \<Rightarrow> recording list \<Rightarrow> bool" where
  "camera_done E opts w chunk camera videos =
     (concat_threshold opts < int (length videos) \<longrightarrow>
        exists w (work_dir opts, session_name E chunk camera ''.con'') \<and>
        exists w (output_dir opts, session_name E chunk camera ''.mp4''))"

definition chunk_done :: "'f env \<Rightarrow> options \<Rightarrow> world \<Rightarrow> chunk \<Rightarrow> bool" where
  "chunk_done E opts w chunk =
     (chunk \<noteq> [] \<and>
      camera_done E opts w chunk ''F'' (fst (split_videos [] [] chunk)) \<and>
      camera_done E opts w chunk ''R'' (snd (split_videos [] [] chunk)))"

text \<open>
  The files a sweep of the directory \<open>d\<close> removes: the regular files whose name matches
  the pattern, whose start date is more than the retention before today and whose
  removal does not raise.
\<close>

definition doomed ::
  "'f env \<Rightarrow> string \<Rightarrow> (string \<Rightarrow> (string \<times> string \<times> string \<times> string) option) \<Rightarrow> int \<Rightarrow> int \<Rightarrow>
   world \<Rightarrow> string \<Rightarrow> bool" where
  "doomed E d filepattern today_obj retention_days w f =
     (isfile w (d, f) \<and>
      (case filepattern f of
         None \<Rightarrow> False
       | Some g \<Rightarrow>
           (case strptime E (fst g) of
              None \<Rightarrow> False
            | Some t \<Rightarrow> retention_days < today_obj - date t \<and> \<not> remove_raises E (d, f))))"

section \<open>Properties of the chunker\<close>

lemma impact_flag_aux:
  "foldl (\<lambda>n item. if startswith (rtype item) ''I'' then n + 1 else n) (k::int) c =
     k + int (length (filter (\<lambda>item. startswith (rtype item) ''I'') c))"
  by (induction c arbitrary: k) auto

lemma impact_flag_filter:
  "impact_flag c = int (length (filter (\<lambda>item. startswith (rtype item) ''I'') c))"
  by (simp add: impact_flag_def impact_flag_aux)

lemma length_filter_all: "(length (filter P xs) = length xs) = (\<forall>x\<in>set xs. P x)"
proof (induction xs)
  case Nil
  show ?case by simp
next
  case (Cons x xs)
  have le: "length (filter P xs) \<le> length xs" by (rule length_filter_le)
  show ?case
  proof (cases "P x")
    case True
    with Cons show ?thesis by simp
  next
    case False
    with le show ?thesis by (auto simp del: length_filter_le)
  qed
qed

lemma all_impact_iff:
  "(int (length c) = impact_flag c) = (\<forall>item\<in>set c. startswith (rtype item) ''I'')"
  using length_filter_all [of "\<lambda>item. startswith (rtype item) ''I''" c]
  by (auto simp: impact_flag_filter)

lemma add_recording_empty: "add_recording opts [] r = Inr (new_chunk [] r)"
  by (simp add: add_recording_def)

lemma add_recording_same:
  "chunks \<noteq> [] \<Longrightarrow> last chunks \<noteq> [] \<Longrightarrow> datetime r = datetime (last (last chunks)) \<Longrightarrow>
   add_recording opts chunks r = Inr (append_last chunks r)"
  by (simp add: add_recording_def)

lemma add_recording_differ:
  "chunks \<noteq> [] \<Longrightarrow> last chunks \<noteq> [] \<Longrightarrow> datetime r \<noteq> datetime (last (last chunks)) \<Longrightarrow>
   add_recording opts chunks r =
     Inr (if consecutive_threshold opts < datetime r - datetime (last (last chunks)) \<or>
             (\<not> initial_impact opts \<and> (\<forall>item\<in>set (last chunks). startswith (rtype item) ''I'') \<and>
              \<not> startswith (rtype r) ''I'')
          then new_chunk chunks r else append_last chunks r)"
  by (auto simp: add_recording_def Let_def all_impact_iff)

lemma add_recording_shape:
  assumes "[] \<notin> set chunks"
  shows "add_recording opts chunks r = Inr (new_chunk chunks r) \<or>
         (chunks \<noteq> [] \<and> add_recording opts chunks r = Inr (append_last chunks r))"
proof (cases "chunks = []")
  case True
  then show ?thesis by (simp add: add_recording_empty)
next
  case False
  with assms have ne: "last chunks \<noteq> []" using last_in_set by metis
  show ?thesis
  proof (cases "datetime r = datetime (last (last chunks))")
    case True
    with False ne show ?thesis by (simp add: add_recording_same)
  next
    case d: False
    with False ne show ?thesis by (simp add: add_recording_differ)
  qed
qed

lemma append_last_props:
  "chunks \<noteq> [] \<Longrightarrow> [] \<notin> set chunks \<Longrightarrow>
   [] \<notin> set (append_last chunks r) \<and> append_last chunks r \<noteq> [] \<and>
   concat (append_last chunks r) = concat chunks @ [r] \<and>
   last (append_last chunks r) = last chunks @ [r] \<and>
   butlast (append_last chunks r) = butlast chunks"
proof -
  assume ne: "chunks \<noteq> []" and a: "[] \<notin> set chunks"
  have "chunks = butlast chunks @ [last chunks]" using ne by simp
  then have "concat chunks = concat (butlast chunks) @ last chunks"
    by (metis concat.simps(1) concat.simps(2) concat_append append_Nil2)
  moreover have "[] \<notin> set (butlast chunks)" using a by (meson in_set_butlastD)
  ultimately show ?thesis by (simp add: append_last_def)
qed

lemma new_chunk_props:
  "[] \<notin> set chunks \<Longrightarrow>
   [] \<notin> set (new_chunk chunks r) \<and> new_chunk chunks r \<noteq> [] \<and>
   concat (new_chunk chunks r) = concat chunks @ [r] \<and>
   last (new_chunk chunks r) = [r] \<and> butlast (new_chunk chunks r) = chunks"
  by (simp add: new_chunk_def)

lemma add_recording_total:
  assumes "[] \<notin> set chunks"
  shows "\<exists>cs. add_recording opts chunks r = Inr cs \<and> [] \<notin> set cs \<and> cs \<noteq> [] \<and>
              concat cs = concat chunks @ [r] \<and>
              (cs = new_chunk chunks r \<or> chunks \<noteq> [] \<and> cs = append_last chunks r)"
  using add_recording_shape [OF assms, of opts r] new_chunk_props [OF assms, of r]
    append_last_props [of chunks r] assms
  by auto

lemma add_all_total:
  "[] \<notin> set chunks \<Longrightarrow>
   \<exists>cs. add_all opts chunks rs = Inr cs \<and> [] \<notin> set cs \<and> concat cs = concat chunks @ rs \<and>
        (rs \<noteq> [] \<longrightarrow> cs \<noteq> [])"
proof (induction rs arbitrary: chunks)
  case Nil
  then show ?case by simp
next
  case (Cons r rs)
  from add_recording_total [OF Cons.prems, of opts r] obtain cs where
    cs: "add_recording opts chunks r = Inr cs" "[] \<notin> set cs" "cs \<noteq> []"
        "concat cs = concat chunks @ [r]"
    by blast
  from Cons.IH [OF cs(2)] obtain ds where
    ds: "add_all opts cs rs = Inr ds" "[] \<notin> set ds" "concat ds = concat cs @ rs"
        "rs \<noteq> [] \<longrightarrow> ds \<noteq> []"
    by blast
  have "ds \<noteq> []"
  proof (cases "rs = []")
    case True
    with ds(1) cs(3) show ?thesis by simp
  next
    case False
    with ds(4) show ?thesis by simp
  qed
  with cs ds show ?case by simp
qed

lemma add_all_append:
  "add_all opts chunks (xs @ ys) =
     (case add_all opts chunks xs of Inl e \<Rightarrow> Inl e | Inr cs \<Rightarrow> add_all opts cs ys)"
  by (induction xs arbitrary: chunks) (auto split: sum.splits)

text \<open>Recordings of one time stamp that follow each other extend the current chunk.\<close>

lemma add_all_same_run:
  "cs \<noteq> [] \<Longrightarrow> last cs = u @ [x] \<Longrightarrow> \<forall>y\<in>set ys. datetime y = datetime x \<Longrightarrow>
   add_all opts cs ys = Inr (butlast cs @ [u @ [x] @ ys])"
proof (induction ys arbitrary: cs u x)
  case Nil
  then show ?case by (metis add_all.simps(1) append_Nil2 append_butlast_last_id)
next
  case (Cons y ys)
  have step: "add_recording opts cs y = Inr (append_last cs y)"
    using Cons.prems by (intro add_recording_same) auto
  have l: "last (append_last cs y) = (u @ [x]) @ [y]"
    using Cons.prems by (simp add: append_last_def)
  have ne: "append_last cs y \<noteq> []" by (simp add: append_last_def)
  have same: "\<forall>z\<in>set ys. datetime z = datetime y" using Cons.prems by simp
  have b: "butlast (append_last cs y) = butlast cs" by (simp add: append_last_def)
  from Cons.IH [OF ne l same] step b show ?case by simp
qed

text \<open>Later recordings extend the last chunk or add chunks: the earlier chunks stay.\<close>

lemma add_all_extends:
  "cs \<noteq> [] \<Longrightarrow> [] \<notin> set cs \<Longrightarrow> add_all opts cs ys = Inr res \<Longrightarrow>
   \<exists>v ds. res = butlast cs @ [last cs @ v] @ ds"
proof (induction ys arbitrary: cs)
  case Nil
  then have "res = butlast cs @ [last cs @ []] @ []" by simp
  then show ?case by blast
next
  case (Cons y ys)
  from add_recording_total [OF Cons.prems(2), of opts y] obtain cs' where
    cs': "add_recording opts cs y = Inr cs'" "[] \<notin> set cs'" "cs' \<noteq> []"
         "cs' = new_chunk cs y \<or> cs' = append_last cs y"
    by blast
  from Cons.prems(3) cs'(1) have "add_all opts cs' ys = Inr res" by simp
  from Cons.IH [OF cs'(3) cs'(2) this] obtain v ds where
    res: "res = butlast cs' @ [last cs' @ v] @ ds" by blast
  from cs'(4) show ?case
  proof
    assume "cs' = new_chunk cs y"
    with res Cons.prems(1) have "res = butlast cs @ [last cs @ []] @ ([[y] @ v] @ ds)"
      by (simp add: new_chunk_def)
    then show ?thesis by blast
  next
    assume "cs' = append_last cs y"
    with res have "res = butlast cs @ [last cs @ ([y] @ v)] @ ds"
      by (simp add: append_last_def)
    then show ?thesis by blast
  qed
qed

lemma last_concat_last:
  "cs \<noteq> [] \<Longrightarrow> last cs \<noteq> [] \<Longrightarrow> last (concat cs) = last (last cs)"
proof -
  assume ne: "cs \<noteq> []" and l: "last cs \<noteq> []"
  have "concat cs = concat (butlast cs @ [last cs])" using ne by simp
  also have "\<dots> = concat (butlast cs) @ last cs" by simp
  finally show ?thesis using l by simp
qed

lemma add_all_snoc:
  assumes "add_all opts [] pre = Inr chunks" and "pre \<noteq> []"
  shows "chunks \<noteq> [] \<and> last chunks \<noteq> [] \<and> last (last chunks) = last pre \<and>
         add_all opts [] (pre @ [r]) = add_recording opts chunks r"
proof -
  from add_all_total [of "[]" opts pre] assms have
    p: "[] \<notin> set chunks" "concat chunks = pre" "chunks \<noteq> []"
    by auto
  then have l: "last chunks \<noteq> []" using last_in_set by metis
  have "add_all opts [] (pre @ [r]) = add_recording opts chunks r"
    using assms(1) by (simp add: add_all_append split: sum.splits)
  with p l last_concat_last [OF p(3) l] show ?thesis by simp
qed

text \<open>The sample scenarios of the specification.\<close>

lemma scenario_gap:
  "add_all sample_opts [] [normal_100000, normal_100030, normal_100200] =
     Inr [[normal_100000, normal_100030], [normal_100200]]"
  by (simp add: add_recording_def new_chunk_def append_last_def Let_def sample_opts_def
      normal_100000_def normal_100030_def normal_100200_def sample_rec_def impact_flag_def
      startswith_def)

lemma scenario_impact:
  "add_all sample_opts [] [impact_100000, impact_100020, normal_100040] =
     Inr [[impact_100000, impact_100020], [normal_100040]]"
  by (simp add: add_recording_def new_chunk_def append_last_def Let_def sample_opts_def
      impact_100000_def impact_100020_def normal_100040_def sample_rec_def impact_flag_def
      startswith_def)

text \<open>
  C1 as stated fails: with \<^verbatim>\<open>initial_impact\<close> disabled, the all-impact chunk
  \<open>[impact_100000]\<close> and a non-impact recording 64 seconds later (the gap equals the
  threshold 64 and does not exceed it), a new chunk is started.
\<close>

theorem gap_within_threshold_new_chunk_counterexample:
  "datetime (last (last [[impact_100000]])) < datetime normal_100104 \<and>
   \<not> consecutive_threshold sample_opts < datetime normal_100104 - datetime impact_100000 \<and>
   datetime normal_100104 - datetime impact_100000 = consecutive_threshold sample_opts \<and>
   add_all sample_opts [] [impact_100000] = Inr [[impact_100000]] \<and>
   add_all sample_opts [] ([impact_100000] @ [normal_100104]) =
     Inr [[impact_100000], [normal_100104]]"
  by (simp add: add_recording_def new_chunk_def append_last_def Let_def sample_opts_def
      impact_100000_def normal_100104_def sample_rec_def impact_flag_def startswith_def)

text \<open>
  C1, amended: for every sequence of recordings \<open>pre\<close>, chunked into \<open>chunks\<close>, and every
  recording \<open>r\<close> whose time stamp is strictly later than that of the last recording of the
  current chunk, the chunker starts a new chunk with \<open>r\<close> whenever the gap in seconds
  exceeds the consecutive threshold. When the gap is at most the threshold (a gap equal
  to it included) \<open>r\<close> is appended to the current chunk, except under the impact rule:
  \<^verbatim>\<open>initial_impact\<close> is disabled, every recording of the current chunk is of an
  impact role and \<open>r\<close> is not; then a new chunk is started with \<open>r\<close>.
\<close>

theorem gap_rule_and_impact_rule:
  assumes "add_all opts [] pre = Inr chunks" and "pre \<noteq> []"
    and "datetime (last pre) < datetime r"
  shows "last (last chunks) = last pre \<and>
         add_all opts [] (pre @ [r]) =
           Inr (if consecutive_threshold opts < datetime r - datetime (last pre) \<or>
                   (\<not> initial_impact opts \<and>
                    (\<forall>item\<in>set (last chunks). startswith (rtype item) ''I'') \<and>
                    \<not> startswith (rtype r) ''I'')
                then new_chunk chunks r else append_last chunks r)"
proof -
  from add_all_snoc [OF assms(1,2), of r] have
    s: "chunks \<noteq> []" "last chunks \<noteq> []" "last (last chunks) = last pre"
       "add_all opts [] (pre @ [r]) = add_recording opts chunks r"
    by auto
  from assms(3) s(3) have "datetime r \<noteq> datetime (last (last chunks))" by simp
  from add_recording_differ [OF s(1) s(2) this, of opts] s(3) s(4) show ?thesis by simp
qed

theorem gap_rule_and_impact_rule_witness:
  "add_all sample_opts [] [normal_100000, normal_100030] = Inr [[normal_100000, normal_100030]] \<and>
   [normal_100000, normal_100030] \<noteq> [] \<and>
   datetime (last [normal_100000, normal_100030]) < datetime normal_100200 \<and>
   add_all sample_opts [] ([normal_100000, normal_100030] @ [normal_100200]) =
     Inr [[normal_100000, normal_100030], [normal_100200]]"
proof -
  have a: "add_all sample_opts [] [normal_100000, normal_100030] =
             Inr [[normal_100000, normal_100030]]"
    by (simp add: add_recording_def new_chunk_def append_last_def Let_def sample_opts_def
        normal_100000_def normal_100030_def sample_rec_def impact_flag_def startswith_def)
  have b: "[normal_100000, normal_100030] \<noteq> []" by simp
  have c: "datetime (last [normal_100000, normal_100030]) < datetime normal_100200"
    by (simp add: normal_100030_def normal_100200_def sample_rec_def)
  from gap_rule_and_impact_rule [OF a b c] a b c show ?thesis
    by (simp add: new_chunk_def sample_opts_def normal_100030_def normal_100200_def
        sample_rec_def)
qed

text \<open>
  C2: in every run of the chunker with \<^verbatim>\<open>initial_impact\<close> disabled, when every
  recording of the current chunk is of an impact role and the next recording \<open>r\<close> has a
  strictly later time stamp within the consecutive threshold, a new chunk is started
  with \<open>r\<close> if \<open>r\<close> is not of an impact role, and \<open>r\<close> is appended to the all-impact chunk
  if it is.
\<close>

theorem all_impact_chunk_excludes_non_impact:
  assumes "add_all opts [] pre = Inr chunks" and "pre \<noteq> []"
    and "\<not> initial_impact opts"
    and "\<forall>item\<in>set (last chunks). startswith (rtype item) ''I''"
    and "datetime (last pre) < datetime r"
    and "datetime r - datetime (last pre) \<le> consecutive_threshold opts"
  shows "add_all opts [] (pre @ [r]) =
           Inr (if startswith (rtype r) ''I'' then append_last chunks r
                else new_chunk chunks r)"
proof -
  from add_all_snoc [OF assms(1,2), of r] have
    s: "chunks \<noteq> []" "last chunks \<noteq> []" "last (last chunks) = last pre"
       "add_all opts [] (pre @ [r]) = add_recording opts chunks r"
    by auto
  from assms(5) s(3) have "datetime r \<noteq> datetime (last (last chunks))" by simp
  from add_recording_differ [OF s(1) s(2) this, of opts] s(3) s(4) assms(3,4,6)
  show ?thesis by auto
qed

theorem all_impact_chunk_excludes_non_impact_witness:
  "add_all sample_opts [] [impact_100000, impact_100020] = Inr [[impact_100000, impact_100020]] \<and>
   [impact_100000, impact_100020] \<noteq> [] \<and>
   \<not> initial_impact sample_opts \<and>
   startswith (rtype impact_100000) ''I'' \<and> startswith (rtype impact_100020) ''I'' \<and>
   \<not> startswith (rtype normal_100040) ''I'' \<and>
   datetime (last [impact_100000, impact_100020]) < datetime normal_100040 \<and>
   datetime normal_100040 - datetime (last [impact_100000, impact_100020])
     \<le> consecutive_threshold sample_opts \<and>
   add_all sample_opts [] ([impact_100000, impact_100020] @ [normal_100040]) =
     Inr [[impact_100000, impact_100020], [normal_100040]]"
proof -
  have a: "add_all sample_opts [] [impact_100000, impact_100020] =
             Inr [[impact_100000, impact_100020]]"
    by (simp add: add_recording_def new_chunk_def append_last_def Let_def sample_opts_def
        impact_100000_def impact_100020_def sample_rec_def impact_flag_def startswith_def)
  have b: "[impact_100000, impact_100020] \<noteq> []" by simp
  have c: "\<not> initial_impact sample_opts" by (simp add: sample_opts_def)
  have d: "\<forall>item\<in>set (last [[impact_100000, impact_100020]]). startswith (rtype item) ''I''"
    by (simp add: impact_100000_def impact_100020_def sample_rec_def startswith_def)
  have e: "datetime (last [impact_100000, impact_100020]) < datetime normal_100040"
    by (simp add: impact_100020_def normal_100040_def sample_rec_def)
  have f: "datetime normal_100040 - datetime (last [impact_100000, impact_100020])
             \<le> consecutive_threshold sample_opts"
    by (simp add: impact_100020_def normal_100040_def sample_rec_def sample_opts_def)
  have g: "\<not> startswith (rtype normal_100040) ''I''"
    by (simp add: normal_100040_def sample_rec_def startswith_def)
  from all_impact_chunk_excludes_non_impact [OF a b c d e f] a b c d e f g show ?thesis
    by (simp add: new_chunk_def)
qed

text \<open>
  C3: a recording whose time stamp equals that of the last recording of the current
  chunk is appended to the current chunk, whatever its role, its extension, the
  composition of the chunk and the \<^verbatim>\<open>initial_impact\<close> flag; so the recordings of a
  run \<open>same\<close> of one time stamp, wherever it stands in the sequence, lie together in one
  chunk of the result, and where the recordings are distinct no other chunk holds any of
  them.
\<close>

theorem same_timestamp_one_chunk:
  "(add_all opts [] pre = Inr chunks \<and> pre \<noteq> [] \<and> datetime r = datetime (last pre) \<longrightarrow>
      add_all opts [] (pre @ [r]) = Inr (append_last chunks r)) \<and>
   (same \<noteq> [] \<and> (\<forall>x\<in>set same. datetime x = t) \<longrightarrow>
      (\<exists>res. add_all opts [] (before @ same @ after) = Inr res \<and>
             concat res = before @ same @ after \<and>
             (\<exists>c\<in>set res. \<exists>u v. c = u @ same @ v) \<and>
             (distinct (before @ same @ after) \<longrightarrow>
                (\<forall>c\<in>set res. \<forall>d\<in>set res. set c \<inter> set d \<noteq> {} \<longrightarrow> c = d))))"
proof (intro conjI impI)
  assume a: "add_all opts [] pre = Inr chunks \<and> pre \<noteq> [] \<and> datetime r = datetime (last pre)"
  from add_all_snoc [of opts pre chunks r] a have
    s: "chunks \<noteq> []" "last chunks \<noteq> []" "last (last chunks) = last pre"
       "add_all opts [] (pre @ [r]) = add_recording opts chunks r"
    by auto
  from a s(3) have "datetime r = datetime (last (last chunks))" by simp
  from add_recording_same [OF s(1) s(2) this] s(4)
  show "add_all opts [] (pre @ [r]) = Inr (append_last chunks r)" by simp
next
  assume b: "same \<noteq> [] \<and> (\<forall>x\<in>set same. datetime x = t)"
  then obtain x xs where same: "same = x # xs" by (cases same) auto
  from add_all_total [of "[]" opts "before @ [x]"] obtain cs where
    cs: "add_all opts [] (before @ [x]) = Inr cs" "[] \<notin> set cs" "cs \<noteq> []"
        "concat cs = before @ [x]"
    by auto
  have l: "last cs \<noteq> []" using cs(2,3) last_in_set by metis
  have "last (last cs) = x" using last_concat_last [OF cs(3) l] cs(4) by simp
  then obtain u where u: "last cs = u @ [x]" using l by (metis append_butlast_last_id)
  have "\<forall>y\<in>set xs. datetime y = datetime x" using b same by simp
  from add_all_same_run [OF cs(3) u this, of opts] have
    run: "add_all opts cs xs = Inr (butlast cs @ [u @ same])" by (simp add: same)
  have ne: "butlast cs @ [u @ same] \<noteq> []" by simp
  have nn: "[] \<notin> set (butlast cs @ [u @ same])"
    using cs(2) b by (auto dest: in_set_butlastD)
  from add_all_total [OF nn, of opts "after"] obtain res where
    res: "add_all opts (butlast cs @ [u @ same]) after = Inr res" by blast
  from add_all_extends [OF ne nn res] obtain v ds where
    shape: "res = butlast cs @ [(u @ same) @ v] @ ds" by auto
  have whole: "add_all opts [] (before @ same @ after) = Inr res"
    using cs(1) run res add_all_append [of opts "[]" "before @ [x]" "xs @ after"]
      add_all_append [of opts cs xs "after"]
    by (simp add: same)
  from add_all_total [of "[]" opts "before @ same @ after"] whole have
    cc: "concat res = before @ same @ after" by auto
  have one: "\<exists>c\<in>set res. \<exists>u v. c = u @ same @ v"
    using shape by auto
  have uniq: "distinct (before @ same @ after) \<longrightarrow>
                (\<forall>c\<in>set res. \<forall>d\<in>set res. set c \<inter> set d \<noteq> {} \<longrightarrow> c = d)"
  proof
    assume "distinct (before @ same @ after)"
    then have "distinct (concat res)" using cc by simp
    then show "\<forall>c\<in>set res. \<forall>d\<in>set res. set c \<inter> set d \<noteq> {} \<longrightarrow> c = d"
      by (auto simp: distinct_concat_iff)
  qed
  from whole cc one uniq
  show "\<exists>res. add_all opts [] (before @ same @ after) = Inr res \<and>
             concat res = before @ same @ after \<and>
             (\<exists>c\<in>set res. \<exists>u v. c = u @ same @ v) \<and>
             (distinct (before @ same @ after) \<longrightarrow>
                (\<forall>c\<in>set res. \<forall>d\<in>set res. set c \<inter> set d \<noteq> {} \<longrightarrow> c = d))"
    by blast
qed

theorem same_timestamp_one_chunk_witness:
  "add_all (sample_opts\<lparr>initial_impact := True\<rparr>) [] [impact_100000] = Inr [[impact_100000]] \<and>
   [impact_100000] \<noteq> [] \<and>
   datetime gps_100000 = datetime (last [impact_100000]) \<and>
   add_all (sample_opts\<lparr>initial_impact := True\<rparr>) [] ([impact_100000] @ [gps_100000]) =
     Inr [[impact_100000, gps_100000]] \<and>
   [normal_100000, rear_100000] \<noteq> [] \<and>
   datetime normal_100000 = 63808164000 \<and> datetime rear_100000 = 63808164000 \<and>
   (\<exists>res. add_all sample_opts [] ([impact_100000] @ [normal_100000, rear_100000] @ [normal_100030])
             = Inr res \<and>
          concat res = [impact_100000] @ [normal_100000, rear_100000] @ [normal_100030] \<and>
          (\<exists>c\<in>set res. \<exists>u v. c = u @ [normal_100000, rear_100000] @ v))"
proof -
  have a: "add_all (sample_opts\<lparr>initial_impact := True\<rparr>) [] [impact_100000] = Inr [[impact_100000]]"
    by (simp add: add_recording_def new_chunk_def)
  have b: "datetime gps_100000 = datetime (last [impact_100000])"
    by (simp add: gps_100000_def impact_100000_def sample_rec_def)
  have c: "datetime normal_100000 = 63808164000 \<and> datetime rear_100000 = 63808164000"
    by (simp add: normal_100000_def rear_100000_def sample_rec_def)
  then have d: "\<forall>x\<in>set [normal_100000, rear_100000]. datetime x = 63808164000" by simp
  from same_timestamp_one_chunk [of "sample_opts\<lparr>initial_impact := True\<rparr>" "[impact_100000]"
      "[[impact_100000]]" gps_100000 "[normal_100000, rear_100000]" 63808164000]
  have 1: "add_all (sample_opts\<lparr>initial_impact := True\<rparr>) [] ([impact_100000] @ [gps_100000]) =
             Inr (append_last [[impact_100000]] gps_100000)"
    using a b by simp
  from same_timestamp_one_chunk [of sample_opts "[]" "[]" gps_100000
      "[normal_100000, rear_100000]" 63808164000 "[impact_100000]" "[normal_100030]"] d
  have 2: "\<exists>res. add_all sample_opts [] ([impact_100000] @ [normal_100000, rear_100000] @ [normal_100030])
             = Inr res \<and>
          concat res = [impact_100000] @ [normal_100000, rear_100000] @ [normal_100030] \<and>
          (\<exists>c\<in>set res. \<exists>u v. c = u @ [normal_100000, rear_100000] @ v)"
    by blast
  from 1 2 a b c show ?thesis by (simp add: append_last_def)
qed

section \<open>Properties of the overlap resolver\<close>

text \<open>The loop over the lines computes the last match and the last hash of the frames.\<close>

lemma scan_lines_Inl:
  "scan_lines E a (i, n, d, m) lines = Inl e \<Longrightarrow> frames_of E n d lines = Inl e"
proof (induction lines arbitrary: i n d m)
  case Nil
  then show ?case by simp
next
  case (Cons line lines)
  show ?case
  proof (cases "startswith line ''#tb''")
    case True
    show ?thesis
    proof (cases "parse_tb E line")
      case (Inl e')
      with True Cons.prems show ?thesis by simp
    next
      case (Inr nd)
      obtain n1 d1 where nd: "nd = (n1, d1)" by (cases nd)
      with True Inr Cons.prems have "scan_lines E a (i, n1, d1, m) lines = Inl e" by simp
      from Cons.IH [OF this] True Inr nd show ?thesis by simp
    qed
  next
    case nt: False
    show ?thesis
    proof (cases "\<not> startswith line ''#'' \<and> length line > 0")
      case False
      with nt Cons.prems have "scan_lines E a (i, n, d, m) lines = Inl e" by auto
      from Cons.IH [OF this] nt False show ?thesis by auto
    next
      case True
      show ?thesis
      proof (cases "parse_frame E n d line")
        case (Inl e')
        with nt True Cons.prems show ?thesis by simp
      next
        case (Inr fr)
        obtain h t where fr: "fr = (h, t)" by (cases fr)
        with nt True Inr Cons.prems have
          "scan_lines E a (if Some h = a then PyFloat t else i, n, d, Some h) lines = Inl e"
          by simp
        from Cons.IH [OF this] nt True Inr show ?thesis by simp
      qed
    qed
  qed
qed

lemma scan_lines_Inr:
  "scan_lines E a (i, n, d, m) lines = Inr (i', n', d', m') \<Longrightarrow>
   \<exists>frs. frames_of E n d lines = Inr frs \<and>
         i' = (case filter (\<lambda>fr. Some (fst fr) = a) frs of
                 [] \<Rightarrow> i | x # xs \<Rightarrow> PyFloat (snd (last (x # xs)))) \<and>
         m' = (if frs = [] then m else Some (fst (last frs)))"
proof (induction lines arbitrary: i n d m)
  case Nil
  then show ?case by simp
next
  case (Cons line lines)
  show ?case
  proof (cases "startswith line ''#tb''")
    case True
    show ?thesis
    proof (cases "parse_tb E line")
      case (Inl e')
      with True Cons.prems show ?thesis by simp
    next
      case (Inr nd)
      obtain n1 d1 where nd: "nd = (n1, d1)" by (cases nd)
      with True Inr Cons.prems have
        "scan_lines E a (i, n1, d1, m) lines = Inr (i', n', d', m')" by simp
      from Cons.IH [OF this] True Inr nd show ?thesis by simp
    qed
  next
    case nt: False
    show ?thesis
    proof (cases "\<not> startswith line ''#'' \<and> length line > 0")
      case False
      with nt Cons.prems have "scan_lines E a (i, n, d, m) lines = Inr (i', n', d', m')"
        by auto
      from Cons.IH [OF this] nt False show ?thesis by auto
    next
      case True
      show ?thesis
      proof (cases "parse_frame E n d line")
        case (Inl e')
        with nt True Cons.prems show ?thesis by simp
      next
        case (Inr fr)
        obtain h t where fr: "fr = (h, t)" by (cases fr)
        with nt True Inr Cons.prems have
          rest: "scan_lines E a (if Some h = a then PyFloat t else i, n, d, Some h) lines =
                   Inr (i', n', d', m')"
          by simp
        from Cons.IH [OF rest] obtain frs where
          frs: "frames_of E n d lines = Inr frs"
               "i' = (case filter (\<lambda>fr. Some (fst fr) = a) frs of
                        [] \<Rightarrow> (if Some h = a then PyFloat t else i)
                      | x # xs \<Rightarrow> PyFloat (snd (last (x # xs))))"
               "m' = (if frs = [] then Some h else Some (fst (last frs)))"
          by blast
        have 1: "frames_of E n d (line # lines) = Inr ((h, t) # frs)"
          using nt True Inr fr frs(1) by simp
        have 2: "i' = (case filter (\<lambda>fr. Some (fst fr) = a) ((h, t) # frs) of
                               [] \<Rightarrow> i | x # xs \<Rightarrow> PyFloat (snd (last (x # xs))))"
        proof (cases "filter (\<lambda>fr. Some (fst fr) = a) frs")
          case Nil
          with frs(2) show ?thesis by simp
        next
          case (Cons y ys)
          with frs(2) show ?thesis by simp
        qed
        have 3: "m' = (if (h, t) # frs = [] then m else Some (fst (last ((h, t) # frs))))"
          using frs(3) by simp
        from 1 2 3 show ?thesis by blast
      qed
    qed
  qed
qed

lemma scan_lines_error:
  assumes "frames_of E n d lines = Inl e"
  shows "scan_lines E a (i, n, d, m) lines = Inl e"
proof (cases "scan_lines E a (i, n, d, m) lines")
  case (Inl e')
  from scan_lines_Inl [OF Inl] assms Inl show ?thesis by simp
next
  case (Inr v)
  obtain i' n' d' m' where "v = (i', n', d', m')" by (cases v)
  with Inr scan_lines_Inr [of E a i n d m lines i' n' d' m'] assms show ?thesis by auto
qed

lemma scan_lines_ok:
  assumes "frames_of E n d lines = Inr frs"
  shows "\<exists>n' d'. scan_lines E a (i, n, d, m) lines =
           Inr (case filter (\<lambda>fr. Some (fst fr) = a) frs of
                  [] \<Rightarrow> i | x # xs \<Rightarrow> PyFloat (snd (last (x # xs))),
                n', d', if frs = [] then m else Some (fst (last frs)))"
proof (cases "scan_lines E a (i, n, d, m) lines")
  case (Inl e)
  from scan_lines_Inl [OF Inl] assms show ?thesis by simp
next
  case (Inr v)
  obtain i' n' d' m' where v: "v = (i', n', d', m')" by (cases v)
  from scan_lines_Inr [of E a i n d m lines i' n' d' m'] Inr v assms show ?thesis by auto
qed

lemma anchor_match:
  "(case filter (\<lambda>fr. Some (fst fr) = Some h) frs of
      [] \<Rightarrow> PyInt 0 | x # xs \<Rightarrow> PyFloat (snd (last (x # xs)))) = last_match h frs"
  by (simp add: last_match_def)

lemma anchor_none:
  "(case filter (\<lambda>fr. Some (fst fr) = None) frs of
      [] \<Rightarrow> i | x # xs \<Rightarrow> PyFloat (snd (last (x # xs)))) = i"
  by simp

text \<open>One iteration of the loop over the videos, by what the process did.\<close>

lemma concat_step_raised:
  assumes "ffmpeg_framemd5 E (video_path v) = Raised"
  shows "concat_step E v (st, w) =
           (case result st of
              None \<Rightarrow> Inl UnboundLocalError
            | Some (rc, out, err) \<Rightarrow>
                Inr (st, logger ERROR (FingerprintOutput err)
                           (logger ERROR (FingerprintOutput out)
                              (logger ERROR (FingerprintRaised (filename v) rc)
                                 (w\<lparr>calls := calls w @ [Framemd5 (video_path v)]\<rparr>)))))"
  using assms by (simp add: concat_step_def Let_def)

lemma concat_step_completed:
  assumes "ffmpeg_framemd5 E (video_path v) = Completed rc out err"
    and "output_frames E out = Inr frs"
  shows "concat_step E v (st, w) =
           (if frs = [] \<and> md5 st = None then Inl UnboundLocalError
            else
              (let inpoint = (case md5_last_frame st of None \<Rightarrow> PyInt 0 | Some h \<Rightarrow> last_match h frs);
                   h' = (if frs = [] then md5 st else Some (fst (last frs))) in
               Inr (\<lparr>records = records st @ [(video_path v, inpoint)],
                     md5_last_frame = h', md5 = h', result = Some (rc, out, err)\<rparr>,
                    logger (if rc \<noteq> 0 then WARNING else DEBUG)
                      (FingerprintDone (filename v) rc (py_format E inpoint))
                      (w\<lparr>calls := calls w @ [Framemd5 (video_path v)]\<rparr>))))"
proof -
  from assms(2) have fr: "frames_of E 1 1 (split_on CHR 0x0A out) = Inr frs"
    by (simp add: output_frames_def)
  from scan_lines_ok [OF fr, of "md5_last_frame st" "PyInt 0" "md5 st"] obtain n' d' where
    sc: "scan_lines E (md5_last_frame st) (PyInt 0, 1, 1, md5 st) (split_on CHR 0x0A out) =
           Inr (case filter (\<lambda>fr. Some (fst fr) = md5_last_frame st) frs of
                  [] \<Rightarrow> PyInt 0 | x # xs \<Rightarrow> PyFloat (snd (last (x # xs))),
                n', d', if frs = [] then md5 st else Some (fst (last frs)))"
    by blast
  have inp: "(case filter (\<lambda>fr. Some (fst fr) = md5_last_frame st) frs of
                [] \<Rightarrow> PyInt 0 | x # xs \<Rightarrow> PyFloat (snd (last (x # xs)))) =
             (case md5_last_frame st of None \<Rightarrow> PyInt 0 | Some h \<Rightarrow> last_match h frs)"
    by (cases "md5_last_frame st") (simp_all add: last_match_def)
  show ?thesis
    using assms(1) sc inp
    by (cases "md5 st") (auto simp: concat_step_def Let_def)
qed

lemma concat_step_scan_error:
  assumes "ffmpeg_framemd5 E (video_path v) = Completed rc out err"
    and "output_frames E out = Inl e"
  shows "concat_step E v (st, w) = Inl e"
proof -
  from assms(2) have "frames_of E 1 1 (split_on CHR 0x0A out) = Inl e"
    by (simp add: output_frames_def)
  from scan_lines_error [OF this, of "md5_last_frame st" "PyInt 0" "md5 st"] assms(1)
  show ?thesis by (simp add: concat_step_def Let_def)
qed

text \<open>The example environment evaluated.\<close>

lemmas text_defs =
  output_frames_def text_of_lines_def split_on_def startswith_def parse_tb_def split_ws_def
  parse_frame_def sample_env_def dec_nat_def strip_def is_space_def is_digit_def

lemma frames_100000:
  "output_frames sample_env output_100000 = Inr [(''aa'', 0), (''bb'', 1)]"
  by (simp add: output_100000_def text_defs)

lemma frames_100030:
  "output_frames sample_env output_100030 = Inr [(''bb'', 0), (''cc'', 1), (''bb'', 2), (''dd'', 3)]"
  by (simp add: output_100030_def text_defs)

lemma frames_100100:
  "output_frames sample_env output_100100 = Inr [(''ee'', 0)]"
  by (simp add: output_100100_def text_defs)

lemma frames_empty: "output_frames sample_env [] = Inr []"
  by (simp add: text_defs)

lemma sample_paths:
  "video_path normal_100000 = ''/rec/20230101_100000_NF.mp4''"
  "video_path normal_100030 = ''/rec/20230101_100030_NF.mp4''"
  "video_path normal_100100 = ''/rec/20230101_100100_NF.mp4''"
  "video_path normal_100104 = ''/rec/20230101_100104_NF.mp4''"
  "video_path normal_100200 = ''/rec/20230101_100200_NF.mp4''"
  by (simp_all add: video_path_def path_join_def startswith_def endswith_def sample_rec_def
      normal_100000_def normal_100030_def normal_100100_def normal_100104_def normal_100200_def)

lemma sample_processes:
  "ffmpeg_framemd5 sample_env (video_path normal_100000) = Completed 0 output_100000 []"
  "ffmpeg_framemd5 sample_env (video_path normal_100030) = Completed 1 output_100030 ''error''"
  "ffmpeg_framemd5 sample_env (video_path normal_100100) = Completed 0 output_100100 []"
  "ffmpeg_framemd5 sample_env (video_path normal_100104) = Completed 1 [] ''error''"
  "ffmpeg_framemd5 sample_env (video_path normal_100200) = Raised"
  by (simp_all add: sample_paths sample_env_def sample_framemd5_def)

lemma sample_formats:
  "py_format sample_env (PyInt 0) = ''0''"
  "py_format sample_env (PyFloat 2) = ''2.0''"
  by (simp_all add: sample_env_def sample_format_def show_nat.simps [of 0] show_nat.simps [of 2])

lemma last_match_samples:
  "last_match ''bb'' [(''bb'', 0), (''cc'', 1), (''bb'', 2), (''dd'', 3)] = PyFloat (2::rat)"
  "last_match ''dd'' [(''ee'', 0)] = (PyInt 0 :: rat pynum)"
  by (simp_all add: last_match_def)

lemma loop_three:
  "resolve_overlaps sample_env [normal_100000, normal_100200, normal_100030] sample_world =
   Inr [(''/rec/20230101_100000_NF.mp4'', PyInt 0), (''/rec/20230101_100030_NF.mp4'', PyFloat 2)]"
  by (simp add: resolve_overlaps_def concat_step_completed [OF sample_processes(1) frames_100000]
      concat_step_completed [OF sample_processes(2) frames_100030]
      concat_step_raised [OF sample_processes(5)]
      concat_init_def sample_paths last_match_samples Let_def)

lemma loop_slip:
  "resolve_overlaps sample_env [normal_100104, normal_100030] sample_world =
     Inl UnboundLocalError"
  by (simp add: resolve_overlaps_def concat_step_completed [OF sample_processes(4) frames_empty] concat_init_def Let_def)

lemma concat_step_records:
  assumes "concat_step E v (st, w) = Inr (st', w')"
  shows "\<exists>more. records st' = records st @ more"
proof (cases "ffmpeg_framemd5 E (video_path v)")
  case Raised
  with assms show ?thesis
    by (auto simp: concat_step_raised split: option.splits)
next
  case (Completed rc out err)
  show ?thesis
  proof (cases "output_frames E out")
    case (Inl e)
    from concat_step_scan_error [OF Completed Inl] assms show ?thesis by simp
  next
    case (Inr frs)
    from concat_step_completed [OF Completed Inr, of st w] assms show ?thesis
      by (auto simp: Let_def split: if_splits)
  qed
qed

lemma concat_loop_records:
  "concat_loop E vs (st, w) = Inr (st', w') \<Longrightarrow> \<exists>more. records st' = records st @ more"
proof (induction vs arbitrary: st w)
  case Nil
  then show ?case by simp
next
  case (Cons v vs)
  from Cons.prems obtain st1 w1 where
    1: "concat_step E v (st, w) = Inr (st1, w1)" and
    2: "concat_loop E vs (st1, w1) = Inr (st', w')"
    by (auto split: sum.splits)
  from concat_step_records [OF 1] Cons.IH [OF 2] show ?case by auto
qed

lemma concat_step_first:
  assumes "concat_step E v (concat_init, w) = Inr (st', w')"
  shows "records st' = [(video_path v, PyInt 0)]"
proof (cases "ffmpeg_framemd5 E (video_path v)")
  case Raised
  with assms show ?thesis
    by (simp add: concat_step_raised concat_init_def)
next
  case (Completed rc out err)
  show ?thesis
  proof (cases "output_frames E out")
    case (Inl e)
    from concat_step_scan_error [OF Completed Inl] assms show ?thesis by simp
  next
    case (Inr frs)
    from concat_step_completed [OF Completed Inr, of concat_init w] assms show ?thesis
      by (auto simp: Let_def concat_init_def split: if_splits)
  qed
qed

lemma last_match_none: "\<forall>fr\<in>set frs. fst fr \<noteq> h \<Longrightarrow> last_match h frs = PyInt 0"
proof -
  assume "\<forall>fr\<in>set frs. fst fr \<noteq> h"
  then have "filter (\<lambda>fr. fst fr = h) frs = []" by (simp add: filter_empty_conv)
  then show ?thesis by (simp add: last_match_def)
qed

lemma last_match_last:
  "\<forall>fr\<in>set after. fst fr \<noteq> h \<Longrightarrow> last_match h (before @ [(h, t)] @ after) = PyFloat t"
proof -
  assume "\<forall>fr\<in>set after. fst fr \<noteq> h"
  then have "filter (\<lambda>fr. fst fr = h) after = []" by (simp add: filter_empty_conv)
  then have "filter (\<lambda>fr. fst fr = h) (before @ [(h, t)] @ after) =
               filter (\<lambda>fr. fst fr = h) before @ [(h, t)]"
    by simp
  then show ?thesis
    by (cases "filter (\<lambda>fr. fst fr = h) before") (simp_all add: last_match_def)
qed

text \<open>
  C4: the first file of a camera list gets the in-point 0. For two files that follow
  each other, the first with at least one frame, the in-point of the second is
  \<open>last_match\<close> of the first file's final frame hash among the second file's frames:
  0 when no frame of the second file has that hash, and otherwise the presentation time
  (raw time stamp times \<^verbatim>\<open>tb_num\<close> divided by \<^verbatim>\<open>tb_den\<close>, as
  \<open>parse_frame\<close> computes it) of the last frame that has it, not of the first.
\<close>

theorem inpoint_is_last_match:
  "(concat_loop E (v # vs) (concat_init, w) = Inr (st, w') \<longrightarrow>
      records st \<noteq> [] \<and> hd (records st) = (video_path v, PyInt 0)) \<and>
   (ffmpeg_framemd5 E (video_path v1) = Completed rc1 out1 err1 \<and>
    output_frames E out1 = Inr frs1 \<and> frs1 \<noteq> [] \<and>
    ffmpeg_framemd5 E (video_path v2) = Completed rc2 out2 err2 \<and>
    output_frames E out2 = Inr frs2 \<longrightarrow>
      (\<exists>st2 w2 i1. concat_loop E [v1, v2] (st0, w0) = Inr (st2, w2) \<and>
         records st2 = records st0 @
           [(video_path v1, i1), (video_path v2, last_match (fst (last frs1)) frs2)])) \<and>
   ((\<forall>fr\<in>set frs. fst fr \<noteq> h) \<longrightarrow> last_match h frs = (PyInt 0 :: 'a pynum)) \<and>
   ((\<forall>fr\<in>set after. fst fr \<noteq> h) \<longrightarrow>
      last_match h (before @ [(h, t)] @ after) = PyFloat (t :: 'a))"
proof (intro conjI impI)
  assume a: "concat_loop E (v # vs) (concat_init, w) = Inr (st, w')"
  then obtain st1 w1 where
    1: "concat_step E v (concat_init, w) = Inr (st1, w1)" and
    2: "concat_loop E vs (st1, w1) = Inr (st, w')"
    by (auto split: sum.splits)
  from concat_step_first [OF 1] concat_loop_records [OF 2]
  show "records st \<noteq> []" and "hd (records st) = (video_path v, PyInt 0)" by auto
next
  assume b: "ffmpeg_framemd5 E (video_path v1) = Completed rc1 out1 err1 \<and>
    output_frames E out1 = Inr frs1 \<and> frs1 \<noteq> [] \<and>
    ffmpeg_framemd5 E (video_path v2) = Completed rc2 out2 err2 \<and>
    output_frames E out2 = Inr frs2"
  then have p1: "ffmpeg_framemd5 E (video_path v1) = Completed rc1 out1 err1"
    and f1: "output_frames E out1 = Inr frs1" and ne: "frs1 \<noteq> []"
    and p2: "ffmpeg_framemd5 E (video_path v2) = Completed rc2 out2 err2"
    and f2: "output_frames E out2 = Inr frs2"
    by auto
  from concat_step_completed [OF p1 f1, of st0 w0] ne obtain st1 w1 i1 where
    s1: "concat_step E v1 (st0, w0) = Inr (st1, w1)"
        "records st1 = records st0 @ [(video_path v1, i1)]"
        "md5_last_frame st1 = Some (fst (last frs1))" "md5 st1 = Some (fst (last frs1))"
    by (auto simp: Let_def)
  from concat_step_completed [OF p2 f2, of st1 w1] s1(3,4) obtain st2 w2 where
    s2: "concat_step E v2 (st1, w1) = Inr (st2, w2)"
        "records st2 = records st1 @ [(video_path v2, last_match (fst (last frs1)) frs2)]"
    by (auto simp: Let_def)
  from s1 s2
  show "\<exists>st2 w2 i1. concat_loop E [v1, v2] (st0, w0) = Inr (st2, w2) \<and>
         records st2 = records st0 @
           [(video_path v1, i1), (video_path v2, last_match (fst (last frs1)) frs2)]"
    by auto
next
  assume "\<forall>fr\<in>set frs. fst fr \<noteq> h"
  then show "last_match h frs = (PyInt 0 :: 'a pynum)" by (rule last_match_none)
next
  assume "\<forall>fr\<in>set after. fst fr \<noteq> h"
  then show "last_match h (before @ [(h, t)] @ after) = PyFloat t" by (rule last_match_last)
qed

lemma sample_filenames:
  "filename normal_100000 = ''20230101_100000_NF.mp4''"
  "filename normal_100030 = ''20230101_100030_NF.mp4''"
  "filename normal_100100 = ''20230101_100100_NF.mp4''"
  "filename normal_100104 = ''20230101_100104_NF.mp4''"
  "filename normal_100200 = ''20230101_100200_NF.mp4''"
  by (simp_all add: sample_rec_def
      normal_100000_def normal_100030_def normal_100100_def normal_100104_def normal_100200_def)

lemma first_step_sample:
  "concat_step sample_env normal_100000 (concat_init, sample_world) =
     Inr (state_after_100000, world_after_100000)"
  by (simp add: concat_step_completed [OF sample_processes(1) frames_100000] concat_init_def
      Let_def sample_paths sample_formats sample_filenames state_after_100000_def
      world_after_100000_def sample_world_def)

theorem inpoint_is_last_match_witness:
  "concat_loop sample_env [normal_100000] (concat_init, sample_world) =
     Inr (state_after_100000, world_after_100000) \<and>
   records state_after_100000 \<noteq> [] \<and>
   hd (records state_after_100000) = (video_path normal_100000, PyInt 0) \<and>
   ffmpeg_framemd5 sample_env (video_path normal_100000) = Completed 0 output_100000 [] \<and>
   output_frames sample_env output_100000 = Inr [(''aa'', 0), (''bb'', 1)] \<and>
   ffmpeg_framemd5 sample_env (video_path normal_100030) = Completed 1 output_100030 ''error'' \<and>
   output_frames sample_env output_100030 =
     Inr [(''bb'', 0), (''cc'', 1), (''bb'', 2), (''dd'', 3)] \<and>
   (\<exists>st2 w2 i1.
      concat_loop sample_env [normal_100000, normal_100030] (concat_init, sample_world) =
        Inr (st2, w2) \<and>
      records st2 =
        [(video_path normal_100000, i1), (video_path normal_100030, PyFloat 2)]) \<and>
   fst (''ee'', 0::rat) \<noteq> ''bb'' \<and> last_match ''bb'' [(''ee'', 0::rat)] = PyInt 0 \<and>
   fst (''dd'', 3::rat) \<noteq> ''bb'' \<and>
   last_match ''bb'' ([(''bb'', 0), (''cc'', 1)] @ [(''bb'', 2::rat)] @ [(''dd'', 3)]) = PyFloat 2"
proof -
  have a: "concat_loop sample_env (normal_100000 # []) (concat_init, sample_world) =
             Inr (state_after_100000, world_after_100000)"
    by (simp add: first_step_sample)
  note p1 = sample_processes(1) and p2 = sample_processes(2)
  note f1 = frames_100000 and f2 = frames_100030
  have ne: "[(''aa'', 0::rat), (''bb'', 1)] \<noteq> []" by simp
  have n1: "\<forall>fr\<in>set [(''ee'', 0::rat)]. fst fr \<noteq> ''bb''" by simp
  have n2: "\<forall>fr\<in>set [(''dd'', 3::rat)]. fst fr \<noteq> ''bb''" by simp
  note inst = inpoint_is_last_match [of sample_env normal_100000 "[]" sample_world
      state_after_100000 world_after_100000 normal_100000 0 output_100000 "[]"
      "[(''aa'', 0), (''bb'', 1)]" normal_100030 1 output_100030 "''error''"
      "[(''bb'', 0), (''cc'', 1), (''bb'', 2), (''dd'', 3)]" concat_init sample_world
      "[(''ee'', 0)]" "''bb''" "[(''dd'', 3)]" "[(''bb'', 0), (''cc'', 1)]" 2]
  from inst a p1 p2 f1 f2 ne have
    1: "records state_after_100000 \<noteq> [] \<and>
        hd (records state_after_100000) = (video_path normal_100000, PyInt 0)"
    by blast
  from inst a p1 p2 f1 f2 ne have
    2: "\<exists>st2 w2 i1.
          concat_loop sample_env [normal_100000, normal_100030] (concat_init, sample_world) =
            Inr (st2, w2) \<and>
          records st2 = records concat_init @
            [(video_path normal_100000, i1),
             (video_path normal_100030,
              last_match (fst (last [(''aa'', 0::rat), (''bb'', 1)]))
                [(''bb'', 0), (''cc'', 1), (''bb'', 2), (''dd'', 3)])]"
    by blast
  from inst n1 have 3: "last_match ''bb'' [(''ee'', 0::rat)] = PyInt 0" by blast
  from inst n2 have
    4: "last_match ''bb'' ([(''bb'', 0), (''cc'', 1)] @ [(''bb'', 2::rat)] @ [(''dd'', 3)]) = PyFloat 2"
    by blast
  from 2 have
    5: "\<exists>st2 w2 i1.
          concat_loop sample_env [normal_100000, normal_100030] (concat_init, sample_world) =
            Inr (st2, w2) \<and>
          records st2 =
            [(video_path normal_100000, i1), (video_path normal_100030, PyFloat 2)]"
    by (simp add: concat_init_def last_match_samples)
  from a 1 p1 p2 f1 f2 5 3 4 show ?thesis by simp
qed

text \<open>
  The anchor after a file with frames: where the fingerprint process completes, with
  whatever return code, and its output holds at least one frame, the iteration does not
  raise and leaves in \<^verbatim>\<open>md5_last_frame\<close> the hash of the file's final frame; the
  loop goes on from there, and the next file's in-point is the last match of that hash.
\<close>

lemma anchor_after_frames:
  assumes "ffmpeg_framemd5 E (video_path v) = Completed rc out err"
    and "output_frames E out = Inr frs" and "frs \<noteq> []"
  shows "\<exists>st' w'. concat_step E v (st, w) = Inr (st', w') \<and>
           md5_last_frame st' = Some (fst (last frs)) \<and>
           concat_loop E (v # vs) (st, w) = concat_loop E vs (st', w') \<and>
           (\<forall>v2 rc2 out2 err2 frs2.
              ffmpeg_framemd5 E (video_path v2) = Completed rc2 out2 err2 \<and>
              output_frames E out2 = Inr frs2 \<longrightarrow>
              (\<exists>st2 w2. concat_step E v2 (st', w') = Inr (st2, w2) \<and>
                 records st2 =
                   records st' @ [(video_path v2, last_match (fst (last frs)) frs2)]))"
proof -
  from concat_step_completed [OF assms(1,2), of st w] assms(3) obtain st' w' where
    s: "concat_step E v (st, w) = Inr (st', w')"
       "md5_last_frame st' = Some (fst (last frs))" "md5 st' = Some (fst (last frs))"
    by (auto simp: Let_def)
  have next_file: "\<exists>st2 w2. concat_step E v2 (st', w') = Inr (st2, w2) \<and>
      records st2 = records st' @ [(video_path v2, last_match (fst (last frs)) frs2)]"
    if "ffmpeg_framemd5 E (video_path v2) = Completed rc2 out2 err2"
      and "output_frames E out2 = Inr frs2" for v2 rc2 out2 err2 frs2
    using concat_step_completed [OF that, of st' w'] s(2,3) by (auto simp: Let_def)
  from s next_file show ?thesis by auto
qed

lemma anchor_after_frames_sample:
  "ffmpeg_framemd5 sample_env (video_path normal_100030) = Completed 1 output_100030 ''error'' \<and>
   (1::int) \<noteq> 0 \<and>
   output_frames sample_env output_100030 =
     Inr [(''bb'', 0), (''cc'', 1), (''bb'', 2), (''dd'', 3)] \<and>
   [(''bb'', 0::rat), (''cc'', 1), (''bb'', 2), (''dd'', 3)] \<noteq> [] \<and>
   (\<exists>st' w'. concat_step sample_env normal_100030 (state_after_100000, world_after_100000) =
              Inr (st', w') \<and>
            md5_last_frame st' = Some ''dd'')"
proof -
  have ne: "[(''bb'', 0::rat), (''cc'', 1), (''bb'', 2), (''dd'', 3)] \<noteq> []" by simp
  from anchor_after_frames [OF sample_processes(2) frames_100030 ne,
      of state_after_100000 world_after_100000 "[]"]
  have "\<exists>st' w'. concat_step sample_env normal_100030 (state_after_100000, world_after_100000) =
              Inr (st', w') \<and>
            md5_last_frame st' = Some ''dd''"
    by auto
  with sample_processes(2) frames_100030 ne show ?thesis by simp
qed

text \<open>
  C5 does not hold of a file without a frame line. The variable \<^verbatim>\<open>md5\<close> is not
  reset for each file, so line 197 hands on the hash read last in an earlier file. In
  the example the second video's process ends with return code 1 and an empty output:
  after it \<^verbatim>\<open>md5_last_frame\<close> is still \<open>bb\<close>, the final frame hash of the first
  video, and the third video is compared against it (in-point 2.0). With such a video
  first in the list, \<^verbatim>\<open>md5\<close> is unbound and the function raises.
\<close>

theorem anchor_kept_from_earlier_file:
  "concat_step sample_env normal_100000 (concat_init, sample_world) =
     Inr (state_after_100000, world_after_100000) \<and>
   md5_last_frame state_after_100000 = Some ''bb'' \<and>
   ffmpeg_framemd5 sample_env (video_path normal_100104) = Completed 1 [] ''error'' \<and>
   output_frames sample_env [] = Inr [] \<and>
   concat_step sample_env normal_100104 (state_after_100000, world_after_100000) =
     Inr (\<lparr>records = [(''/rec/20230101_100000_NF.mp4'', PyInt 0),
                       (''/rec/20230101_100104_NF.mp4'', PyInt 0)],
           md5_last_frame = Some ''bb'', md5 = Some ''bb'',
           result = Some (1, [], ''error'')\<rparr>,
          logger WARNING (FingerprintDone ''20230101_100104_NF.mp4'' 1 ''0'')
            (world_after_100000\<lparr>calls := calls world_after_100000 @
               [Framemd5 ''/rec/20230101_100104_NF.mp4'']\<rparr>)) \<and>
   resolve_overlaps sample_env [normal_100000, normal_100104, normal_100030] sample_world =
     Inr [(''/rec/20230101_100000_NF.mp4'', PyInt 0),
          (''/rec/20230101_100104_NF.mp4'', PyInt 0),
          (''/rec/20230101_100030_NF.mp4'', PyFloat 2)] \<and>
   resolve_overlaps sample_env [normal_100104, normal_100030] sample_world =
     Inl UnboundLocalError"
proof -
  have 1: "md5_last_frame state_after_100000 = Some ''bb''"
    by (simp add: state_after_100000_def)
  have 2: "concat_step sample_env normal_100104 (state_after_100000, world_after_100000) =
     Inr (\<lparr>records = [(''/rec/20230101_100000_NF.mp4'', PyInt 0),
                       (''/rec/20230101_100104_NF.mp4'', PyInt 0)],
           md5_last_frame = Some ''bb'', md5 = Some ''bb'',
           result = Some (1, [], ''error'')\<rparr>,
          logger WARNING (FingerprintDone ''20230101_100104_NF.mp4'' 1 ''0'')
            (world_after_100000\<lparr>calls := calls world_after_100000 @
               [Framemd5 ''/rec/20230101_100104_NF.mp4'']\<rparr>))"
    by (simp add: concat_step_completed [OF sample_processes(4) frames_empty] Let_def
        sample_paths sample_formats sample_filenames state_after_100000_def last_match_def)
  have 3: "resolve_overlaps sample_env [normal_100000, normal_100104, normal_100030]
             sample_world =
     Inr [(''/rec/20230101_100000_NF.mp4'', PyInt 0),
          (''/rec/20230101_100104_NF.mp4'', PyInt 0),
          (''/rec/20230101_100030_NF.mp4'', PyFloat 2)]"
    by (simp add: resolve_overlaps_def
        concat_step_completed [OF sample_processes(1) frames_100000]
        concat_step_completed [OF sample_processes(4) frames_empty]
        concat_step_completed [OF sample_processes(2) frames_100030]
        concat_init_def sample_paths last_match_samples Let_def last_match_def)
  from first_step_sample 1 sample_processes(4) frames_empty 2 3 loop_slip
  show ?thesis by (simp only: simp_thms)
qed

text \<open>
  C6 as stated fails: of three videos the second's fingerprint process could not be
  started (\<^verbatim>\<open>subprocess.run\<close> raised). The handler logs and goes on to the third
  video, and the second is not in the trim list.
\<close>

theorem fingerprint_raise_skips_file_counterexample:
  "ffmpeg_framemd5 sample_env (video_path normal_100200) = Raised \<and>
   video_path normal_100200 = ''/rec/20230101_100200_NF.mp4'' \<and>
   resolve_overlaps sample_env [normal_100000, normal_100200, normal_100030] sample_world =
     Inr [(''/rec/20230101_100000_NF.mp4'', PyInt 0),
          (''/rec/20230101_100030_NF.mp4'', PyFloat 2)]"
  using loop_three sample_processes(5) sample_paths(5) by simp

text \<open>
  The claim also fails where the code slips: a first video whose process exits with
  status 1 and no output makes the whole function raise, since \<^verbatim>\<open>md5\<close> was
  never bound.
\<close>

lemma first_file_without_frames_raises:
  "ffmpeg_framemd5 sample_env (video_path normal_100104) = Completed 1 [] ''error'' \<and>
   resolve_overlaps sample_env [normal_100104, normal_100030] sample_world =
     Inl UnboundLocalError"
  using loop_slip sample_processes(4) by simp

text \<open>
  C6, amended: for every file whose fingerprint process completes with a non-zero
  return code, whose output parses and for which a frame hash is bound (the output has a
  frame, or an earlier file had one), a warning is logged, the file is appended to the
  trim list with the in-point computed (0 when nothing was read) and the loop goes on
  with the next file. For a file whose process could not be started, when an earlier
  process has completed, the error is logged, the file is not appended to the trim list
  and the loop goes on with the next file.
\<close>

theorem failed_fingerprint_handling:
  "(ffmpeg_framemd5 E (video_path v) = Completed rc out err \<and> rc \<noteq> 0 \<and>
    output_frames E out = Inr frs \<and> (frs = [] \<longrightarrow> md5 st \<noteq> None) \<longrightarrow>
      (\<exists>st' inpoint.
         concat_loop E (v # vs) (st, w) =
           concat_loop E vs
             (st', logger WARNING (FingerprintDone (filename v) rc (py_format E inpoint))
                     (w\<lparr>calls := calls w @ [Framemd5 (video_path v)]\<rparr>)) \<and>
         records st' = records st @ [(video_path v, inpoint)] \<and>
         inpoint = (case md5_last_frame st of None \<Rightarrow> PyInt 0 | Some h \<Rightarrow> last_match h frs) \<and>
         (frs = [] \<longrightarrow> inpoint = PyInt 0))) \<and>
   (ffmpeg_framemd5 E (video_path v) = Raised \<and> result st = Some (rc', out', err') \<longrightarrow>
      concat_loop E (v # vs) (st, w) =
        concat_loop E vs
          (st, logger ERROR (FingerprintOutput err')
                 (logger ERROR (FingerprintOutput out')
                    (logger ERROR (FingerprintRaised (filename v) rc')
                       (w\<lparr>calls := calls w @ [Framemd5 (video_path v)]\<rparr>)))))"
proof (intro conjI impI)
  assume a: "ffmpeg_framemd5 E (video_path v) = Completed rc out err \<and> rc \<noteq> 0 \<and>
    output_frames E out = Inr frs \<and> (frs = [] \<longrightarrow> md5 st \<noteq> None)"
  then have p: "ffmpeg_framemd5 E (video_path v) = Completed rc out err"
    and f: "output_frames E out = Inr frs" and rc: "rc \<noteq> 0"
    and b: "\<not> (frs = [] \<and> md5 st = None)"
    by auto
  define inpoint where
    "inpoint = (case md5_last_frame st of None \<Rightarrow> PyInt 0 | Some h \<Rightarrow> last_match h frs)"
  define h' where "h' = (if frs = [] then md5 st else Some (fst (last frs)))"
  define st' where
    "st' = \<lparr>records = records st @ [(video_path v, inpoint)], md5_last_frame = h', md5 = h',
            result = Some (rc, out, err)\<rparr>"
  have step: "concat_step E v (st, w) =
      Inr (st', logger WARNING (FingerprintDone (filename v) rc (py_format E inpoint))
                 (w\<lparr>calls := calls w @ [Framemd5 (video_path v)]\<rparr>))"
    using concat_step_completed [OF p f, of st w] b rc
    by (simp add: Let_def inpoint_def h'_def st'_def)
  have z: "frs = [] \<longrightarrow> inpoint = PyInt 0"
    by (simp add: inpoint_def last_match_def split: option.splits)
  have r: "records st' = records st @ [(video_path v, inpoint)]" by (simp add: st'_def)
  from step z r inpoint_def
  show "\<exists>st' inpoint.
         concat_loop E (v # vs) (st, w) =
           concat_loop E vs
             (st', logger WARNING (FingerprintDone (filename v) rc (py_format E inpoint))
                     (w\<lparr>calls := calls w @ [Framemd5 (video_path v)]\<rparr>)) \<and>
         records st' = records st @ [(video_path v, inpoint)] \<and>
         inpoint = (case md5_last_frame st of None \<Rightarrow> PyInt 0 | Some h \<Rightarrow> last_match h frs) \<and>
         (frs = [] \<longrightarrow> inpoint = PyInt 0)"
    by (intro exI [of _ st'] exI [of _ inpoint]) simp
next
  assume "ffmpeg_framemd5 E (video_path v) = Raised \<and> result st = Some (rc', out', err')"
  then show "concat_loop E (v # vs) (st, w) =
        concat_loop E vs
          (st, logger ERROR (FingerprintOutput err')
                 (logger ERROR (FingerprintOutput out')
                    (logger ERROR (FingerprintRaised (filename v) rc')
                       (w\<lparr>calls := calls w @ [Framemd5 (video_path v)]\<rparr>))))"
    by (simp add: concat_step_raised)
qed

theorem failed_fingerprint_handling_witness:
  "ffmpeg_framemd5 sample_env (video_path normal_100104) = Completed 1 [] ''error'' \<and>
   (1::int) \<noteq> 0 \<and> output_frames sample_env [] = Inr [] \<and>
   md5 state_after_100000 \<noteq> None \<and>
   (\<exists>st'. concat_loop sample_env [normal_100104] (state_after_100000, world_after_100000) =
            Inr (st', logger WARNING (FingerprintDone ''20230101_100104_NF.mp4'' 1 ''0'')
                        (world_after_100000\<lparr>calls := calls world_after_100000 @
                           [Framemd5 ''/rec/20230101_100104_NF.mp4'']\<rparr>)) \<and>
          records st' = records state_after_100000 @ [(''/rec/20230101_100104_NF.mp4'', PyInt 0)]) \<and>
   ffmpeg_framemd5 sample_env (video_path normal_100200) = Raised \<and>
   result state_after_100000 = Some (0, output_100000, []) \<and>
   concat_loop sample_env [normal_100200] (state_after_100000, world_after_100000) =
     Inr (state_after_100000,
          logger ERROR (FingerprintOutput [])
            (logger ERROR (FingerprintOutput output_100000)
               (logger ERROR (FingerprintRaised ''20230101_100200_NF.mp4'' 0)
                  (world_after_100000\<lparr>calls := calls world_after_100000 @
                     [Framemd5 ''/rec/20230101_100200_NF.mp4'']\<rparr>))))"
proof -
  have m: "md5 state_after_100000 \<noteq> None" by (simp add: state_after_100000_def)
  have r: "result state_after_100000 = Some (0, output_100000, [])"
    by (simp add: state_after_100000_def)
  have rc: "(1::int) \<noteq> 0" by simp
  from failed_fingerprint_handling [of sample_env normal_100104 1 "[]" "''error''" "[]"
      state_after_100000 "[]" world_after_100000]
    sample_processes(4) frames_empty m rc
  have 1: "\<exists>st' inpoint.
         concat_loop sample_env [normal_100104] (state_after_100000, world_after_100000) =
           concat_loop sample_env []
             (st', logger WARNING
                     (FingerprintDone (filename normal_100104) 1 (py_format sample_env inpoint))
                     (world_after_100000\<lparr>calls := calls world_after_100000 @
                        [Framemd5 (video_path normal_100104)]\<rparr>)) \<and>
         records st' = records state_after_100000 @ [(video_path normal_100104, inpoint)] \<and>
         inpoint = PyInt 0"
    by auto
  from failed_fingerprint_handling [of sample_env normal_100200 _ _ _ _
      state_after_100000 "[]" world_after_100000 0 output_100000 "[]"]
    sample_processes(5) r
  have 2: "concat_loop sample_env [normal_100200] (state_after_100000, world_after_100000) =
        concat_loop sample_env []
          (state_after_100000, logger ERROR (FingerprintOutput [])
                 (logger ERROR (FingerprintOutput output_100000)
                    (logger ERROR (FingerprintRaised (filename normal_100200) 0)
                       (world_after_100000\<lparr>calls := calls world_after_100000 @
                          [Framemd5 (video_path normal_100200)]\<rparr>))))"
    by blast
  from 1 2 m r rc sample_processes(4,5) frames_empty show ?thesis
    by (auto simp: sample_paths sample_filenames sample_formats)
qed

section \<open>Properties of the concatenation driver\<close>

text \<open>The two lists of a chunk are filters of the chunk.\<close>

lemma split_videos_filter:
  "split_videos fs rs chunk =
     (fs @ filter (\<lambda>item. ext item = ''mp4'' \<and> endswith (rtype item) ''F'') chunk,
      rs @ filter (\<lambda>item. ext item = ''mp4'' \<and> \<not> endswith (rtype item) ''F'' \<and>
                           endswith (rtype item) ''R'') chunk)"
  by (induction chunk arbitrary: fs rs) auto

lemma endswith_F_not_R: "endswith s ''F'' \<Longrightarrow> \<not> endswith s ''R''"
  by (auto simp: endswith_def)

text \<open>The external calls of the functions that process a chunk.\<close>

lemma concat_step_calls:
  assumes "concat_step E v (st, w) = Inr (st', w')"
  shows "calls w' = calls w @ [Framemd5 (video_path v)] \<and> files w' = files w"
proof (cases "ffmpeg_framemd5 E (video_path v)")
  case Raised
  with assms show ?thesis
    by (auto simp: concat_step_raised logger_def split: option.splits)
next
  case (Completed rc out err)
  show ?thesis
  proof (cases "output_frames E out")
    case (Inl e)
    from concat_step_scan_error [OF Completed Inl] assms show ?thesis by simp
  next
    case (Inr frs)
    from concat_step_completed [OF Completed Inr, of st w] assms show ?thesis
      by (auto simp: Let_def logger_def split: if_splits)
  qed
qed

lemma concat_loop_calls:
  "concat_loop E vs (st, w) = Inr (st', w') \<Longrightarrow>
   calls w' = calls w @ map (\<lambda>v. Framemd5 (video_path v)) vs \<and> files w' = files w"
proof (induction vs arbitrary: st w)
  case Nil
  then show ?case by simp
next
  case (Cons v vs)
  from Cons.prems obtain st1 w1 where
    1: "concat_step E v (st, w) = Inr (st1, w1)" and
    2: "concat_loop E vs (st1, w1) = Inr (st', w')"
    by (auto split: sum.splits)
  from concat_step_calls [OF 1] Cons.IH [OF 2] show ?case by simp
qed

lemma logger_fields [simp]:
  "files (logger l m w) = files w" "calls (logger l m w) = calls w"
  "dirs (logger l m w) = dirs w" "logs (logger l m w) = logs w @ [(l, m)]"
  by (simp_all add: logger_def)

lemma exists_logger [simp]: "exists (logger l m w) p = exists w p"
  by (simp add: exists_def)

lemma exists_calls [simp]: "exists (w\<lparr>calls := c\<rparr>) p = exists w p"
  by (simp add: exists_def)

lemma exists_update [simp]:
  "exists (w\<lparr>files := AList.update k v (files w)\<rparr>) p = (p = k \<or> exists w p)"
  by (auto simp: exists_def update_conv')

lemma write_file_exists:
  "write_file w k text = Inr w' \<Longrightarrow>
   calls w' = calls w \<and> exists w' k \<and> (\<forall>p. exists w p \<longrightarrow> exists w' p)"
  by (auto simp: write_file_def exists_def update_conv' split: option.splits node.splits)

text \<open>\<^verbatim>\<open>create_concat_file\<close>: what it calls, and which entries exist afterwards.\<close>

lemma create_concat_file_skip:
  "exists w (path, name) \<Longrightarrow> \<not> ow \<Longrightarrow>
   create_concat_file E path name videos no ow w = Inr (None, logger INFO (SkippedExists name) w)"
  by (simp add: create_concat_file_def)

lemma create_concat_file_effect:
  assumes "create_concat_file E path name videos no ow w = Inr (r, w')"
  shows "(\<forall>p. exists w p \<longrightarrow> exists w' p) \<and> (\<not> no \<longrightarrow> exists w' (path, name)) \<and>
         (calls w' = calls w \<or> calls w' = calls w @ map (\<lambda>v. Framemd5 (video_path v)) videos)"
proof (cases "exists w (path, name) \<and> \<not> ow")
  case True
  with assms show ?thesis by (auto simp: create_concat_file_def)
next
  case False
  with assms obtain st w1 where
    loop: "concat_loop E videos (concat_init, w) = Inr (st, w1)"
    by (auto simp: create_concat_file_def split: sum.splits)
  from concat_loop_calls [OF loop] have
    c: "calls w1 = calls w @ map (\<lambda>v. Framemd5 (video_path v)) videos" "files w1 = files w"
    by auto
  then have e: "\<And>p. exists w1 p = exists w p" by (simp add: exists_def)
  show ?thesis
  proof (cases no)
    case True
    with assms False loop c e show ?thesis
      by (auto simp: create_concat_file_def)
  next
    case no: False
    with assms False loop obtain w2 where
      wr: "write_file w1 (path, name) (manifest_text E (records st)) = Inr w2"
      and w': "w' = logger INFO (Created name) w2"
      by (auto simp: create_concat_file_def split: sum.splits)
    from write_file_exists [OF wr] w' c e show ?thesis by auto
  qed
qed

text \<open>\<^verbatim>\<open>create_output_file\<close> likewise.\<close>

lemma create_output_file_skip:
  "exists w (po, oname) \<Longrightarrow> \<not> ow \<Longrightarrow>
   create_output_file E pw cname po oname no ow w =
     Inr (Some True, logger INFO (ConcatSkipped oname) w)"
  by (simp add: create_output_file_def)

lemma create_output_file_effect:
  assumes "create_output_file E pw cname po oname no ow w = Inr (r, w')"
  shows "(\<forall>p. exists w p \<longrightarrow> exists w' p) \<and>
         (calls w' = calls w \<or>
          calls w' = calls w @ [Concat (path_join pw cname) (path_join po oname)]) \<and>
         (\<not> no \<and> (\<forall>fs m out rc. ffmpeg_concat E fs m out \<noteq> MCompleted rc None) \<longrightarrow>
            exists w' (po, oname))"
proof (cases "exists w (po, oname) \<and> \<not> ow")
  case True
  with assms show ?thesis by (auto simp: create_output_file_def)
next
  case False
  show ?thesis
  proof (cases no)
    case True
    with assms False show ?thesis by (auto simp: create_output_file_def)
  next
    case no: False
    show ?thesis
    proof (cases "ffmpeg_concat E (files w) (path_join pw cname) (path_join po oname)")
      case MRaised
      with assms False no show ?thesis by (simp add: create_output_file_def)
    next
      case (MCompleted rc written)
      show ?thesis
      proof (cases written)
        case None
        with assms False no MCompleted show ?thesis
          by (auto simp: create_output_file_def Let_def exists_def split: if_splits)
      next
        case (Some media)
        with assms False no MCompleted show ?thesis
          by (auto simp: create_output_file_def Let_def exists_def update_conv'
              split: if_splits)
      qed
    qed
  qed
qed

lemma process_videos_skip:
  "int (length videos) \<le> concat_threshold opts \<Longrightarrow>
   process_videos E opts ts te cam videos title w =
     Inr (True, logger INFO (SkippedThreshold title (concat_threshold opts)) w)"
  by (simp add: process_videos_def)

lemma process_videos_merge:
  "concat_threshold opts < int (length videos) \<Longrightarrow>
   process_videos E opts ts te cam videos title w =
     (case create_concat_file E (work_dir opts) (ts @ ''-'' @ te @ ''_'' @ cam @ ''.con'') videos
             (no_output opts) (overwrite opts) w of
        Inl e \<Rightarrow> Inl e
      | Inr (r1, w1) \<Rightarrow>
          (case create_output_file E (work_dir opts) (ts @ ''-'' @ te @ ''_'' @ cam @ ''.con'')
                  (output_dir opts) (ts @ ''-'' @ te @ ''_'' @ cam @ ''.mp4'')
                  (no_output opts) (overwrite opts) w1 of
             Inl e \<Rightarrow> Inl e
           | Inr (r2, w2) \<Rightarrow> Inr (True, w2)))"
proof -
  assume "concat_threshold opts < int (length videos)"
  then have "\<not> int (length videos) \<le> concat_threshold opts" by simp
  then show ?thesis
    unfolding process_videos_def Let_def by (simp only: if_False)
qed

lemma process_videos_true:
  "process_videos E opts ts te cam videos title w = Inr (b, w') \<Longrightarrow> b"
  by (auto simp: process_videos_def Let_def split: if_splits sum.splits)

lemma process_videos_effect:
  assumes "process_videos E opts ts te cam videos title w = Inr (b, w')"
  shows "(\<forall>p. exists w p \<longrightarrow> exists w' p) \<and>
         (\<forall>p. Framemd5 p \<in> set (calls w') \<longrightarrow>
              Framemd5 p \<in> set (calls w) \<or> (\<exists>v\<in>set videos. p = video_path v)) \<and>
         (concat_threshold opts < int (length videos) \<and> \<not> no_output opts \<and>
          (\<forall>fs m out rc. ffmpeg_concat E fs m out \<noteq> MCompleted rc None) \<longrightarrow>
            exists w' (work_dir opts, ts @ ''-'' @ te @ ''_'' @ cam @ ''.con'') \<and>
            exists w' (output_dir opts, ts @ ''-'' @ te @ ''_'' @ cam @ ''.mp4''))"
proof (cases "int (length videos) \<le> concat_threshold opts")
  case True
  from process_videos_skip [OF True, of E ts te cam title w] assms True show ?thesis by auto
next
  case False
  then have gt: "concat_threshold opts < int (length videos)" by simp
  from process_videos_merge [OF gt, of E ts te cam title w] assms obtain r1 w1 r2 where
    1: "create_concat_file E (work_dir opts) (ts @ ''-'' @ te @ ''_'' @ cam @ ''.con'') videos
          (no_output opts) (overwrite opts) w = Inr (r1, w1)" and
    2: "create_output_file E (work_dir opts) (ts @ ''-'' @ te @ ''_'' @ cam @ ''.con'')
          (output_dir opts) (ts @ ''-'' @ te @ ''_'' @ cam @ ''.mp4'')
          (no_output opts) (overwrite opts) w1 = Inr (r2, w')"
    by (auto split: sum.splits)
  note a = create_concat_file_effect [OF 1] and b = create_output_file_effect [OF 2]
  have ex: "\<forall>p. exists w p \<longrightarrow> exists w' p" using a b by blast
  have calls1: "\<forall>p. Framemd5 p \<in> set (calls w1) \<longrightarrow>
              Framemd5 p \<in> set (calls w) \<or> (\<exists>v\<in>set videos. p = video_path v)"
    using a by auto
  have calls2: "\<forall>p. Framemd5 p \<in> set (calls w') \<longrightarrow> Framemd5 p \<in> set (calls w1)"
    using b by auto
  have made: "\<not> no_output opts \<and>
          (\<forall>fs m out rc. ffmpeg_concat E fs m out \<noteq> MCompleted rc None) \<longrightarrow>
            exists w' (work_dir opts, ts @ ''-'' @ te @ ''_'' @ cam @ ''.con'') \<and>
            exists w' (output_dir opts, ts @ ''-'' @ te @ ''_'' @ cam @ ''.mp4'')"
    using a b by blast
  from ex calls1 calls2 made show ?thesis by blast
qed

lemma process_videos_ready:
  assumes "\<not> overwrite opts"
    and "concat_threshold opts < int (length videos) \<longrightarrow>
           exists w (work_dir opts, ts @ ''-'' @ te @ ''_'' @ cam @ ''.con'') \<and>
           exists w (output_dir opts, ts @ ''-'' @ te @ ''_'' @ cam @ ''.mp4'')"
  shows "\<exists>w'. process_videos E opts ts te cam videos title w = Inr (True, w') \<and>
              files w' = files w \<and> calls w' = calls w"
proof (cases "int (length videos) \<le> concat_threshold opts")
  case True
  from process_videos_skip [OF True, of E ts te cam title w] show ?thesis by simp
next
  case False
  then have gt: "concat_threshold opts < int (length videos)" by simp
  with assms(2) have
    m: "exists w (work_dir opts, ts @ ''-'' @ te @ ''_'' @ cam @ ''.con'')" and
    out: "exists w (output_dir opts, ts @ ''-'' @ te @ ''_'' @ cam @ ''.mp4'')"
    by auto
  let ?w1 = "logger INFO (SkippedExists (ts @ ''-'' @ te @ ''_'' @ cam @ ''.con'')) w"
  let ?w2 = "logger INFO (ConcatSkipped (ts @ ''-'' @ te @ ''_'' @ cam @ ''.mp4'')) ?w1"
  have c: "create_concat_file E (work_dir opts) (ts @ ''-'' @ te @ ''_'' @ cam @ ''.con'') videos
             (no_output opts) (overwrite opts) w = Inr (None, ?w1)"
    by (rule create_concat_file_skip [OF m assms(1)])
  have "exists ?w1 (output_dir opts, ts @ ''-'' @ te @ ''_'' @ cam @ ''.mp4'')"
    using out by (simp only: exists_logger)
  then have d: "create_output_file E (work_dir opts) (ts @ ''-'' @ te @ ''_'' @ cam @ ''.con'')
             (output_dir opts) (ts @ ''-'' @ te @ ''_'' @ cam @ ''.mp4'')
             (no_output opts) (overwrite opts) ?w1 = Inr (Some True, ?w2)"
    using assms(1) by (rule create_output_file_skip)
  have "process_videos E opts ts te cam videos title w = Inr (True, ?w2)"
    by (simp only: process_videos_merge [OF gt] c d sum.case prod.case)
  moreover have "files ?w2 = files w \<and> calls ?w2 = calls w"
    by (simp only: logger_fields)
  ultimately show ?thesis by blast
qed

text \<open>
  C7: a list with at most \<^verbatim>\<open>concat_threshold\<close> videos (exactly as many included)
  is skipped: \<^verbatim>\<open>process_videos\<close> returns at once, having logged the skip and
  nothing else; no file is written and no process started. Where a file or the list of
  processes started has changed, the count was strictly greater than the threshold; and
  then the manifest and the merge are attempted.
\<close>

theorem at_or_below_threshold_skipped:
  "(int (length videos) \<le> concat_threshold opts \<longrightarrow>
      process_videos E opts ts te cam videos title w =
        Inr (True, w\<lparr>logs := logs w @ [(INFO, SkippedThreshold title (concat_threshold opts))]\<rparr>)) \<and>
   (process_videos E opts ts te cam videos title w = Inr (b, w') \<and>
    (files w' \<noteq> files w \<or> calls w' \<noteq> calls w) \<longrightarrow>
      concat_threshold opts < int (length videos)) \<and>
   (concat_threshold opts < int (length videos) \<longrightarrow>
      process_videos E opts ts te cam videos title w =
        (case create_concat_file E (work_dir opts) (ts @ ''-'' @ te @ ''_'' @ cam @ ''.con'') videos
                (no_output opts) (overwrite opts) w of
           Inl e \<Rightarrow> Inl e
         | Inr (r1, w1) \<Rightarrow>
             (case create_output_file E (work_dir opts) (ts @ ''-'' @ te @ ''_'' @ cam @ ''.con'')
                     (output_dir opts) (ts @ ''-'' @ te @ ''_'' @ cam @ ''.mp4'')
                     (no_output opts) (overwrite opts) w1 of
                Inl e \<Rightarrow> Inl e
              | Inr (r2, w2) \<Rightarrow> Inr (True, w2))))"
proof (intro conjI impI)
  assume "int (length videos) \<le> concat_threshold opts"
  then show "process_videos E opts ts te cam videos title w =
        Inr (True, w\<lparr>logs := logs w @ [(INFO, SkippedThreshold title (concat_threshold opts))]\<rparr>)"
    by (simp add: process_videos_skip logger_def)
next
  assume a: "process_videos E opts ts te cam videos title w = Inr (b, w') \<and>
    (files w' \<noteq> files w \<or> calls w' \<noteq> calls w)"
  show "concat_threshold opts < int (length videos)"
  proof (rule ccontr)
    assume "\<not> concat_threshold opts < int (length videos)"
    then have "int (length videos) \<le> concat_threshold opts" by simp
    from process_videos_skip [OF this, of E ts te cam title w] a show False by auto
  qed
next
  assume "concat_threshold opts < int (length videos)"
  then show "process_videos E opts ts te cam videos title w =
        (case create_concat_file E (work_dir opts) (ts @ ''-'' @ te @ ''_'' @ cam @ ''.con'') videos
                (no_output opts) (overwrite opts) w of
           Inl e \<Rightarrow> Inl e
         | Inr (r1, w1) \<Rightarrow>
             (case create_output_file E (work_dir opts) (ts @ ''-'' @ te @ ''_'' @ cam @ ''.con'')
                     (output_dir opts) (ts @ ''-'' @ te @ ''_'' @ cam @ ''.mp4'')
                     (no_output opts) (overwrite opts) w1 of
                Inl e \<Rightarrow> Inl e
              | Inr (r2, w2) \<Rightarrow> Inr (True, w2)))"
    by (rule process_videos_merge)
qed

text \<open>The processes \<^verbatim>\<open>process_chunks\<close> starts.\<close>

lemma process_chunks_calls:
  "process_chunks E opts chunks w = Inr w' \<Longrightarrow> Framemd5 p \<in> set (calls w') \<Longrightarrow>
   Framemd5 p \<in> set (calls w) \<or>
   (\<exists>c\<in>set chunks. \<exists>v\<in>set c. p = video_path v \<and> ext v = ''mp4'' \<and>
      (endswith (rtype v) ''F'' \<or> endswith (rtype v) ''R''))"
proof (induction chunks arbitrary: w)
  case Nil
  then show ?case by simp
next
  case (Cons chunk chunks)
  let ?ts = "strftime E ''%Y%m%d_%H%M%S'' (datetime (hd chunk))"
  let ?te = "strftime E ''%Y%m%d_%H%M%S'' (datetime (last chunk))"
  let ?w0 = "logger DEBUG (Span ?ts ?te) w"
  let ?vf = "fst (split_videos [] [] chunk)"
  let ?vr = "snd (split_videos [] [] chunk)"
  from Cons.prems(1) have ne: "chunk \<noteq> []" by (auto split: if_splits)
  with Cons.prems(1) obtain b1 w1 where
    1: "process_videos E opts ?ts ?te ''F'' ?vf (chunk_title E chunk @ '' Front'') ?w0 =
          Inr (b1, w1)"
    by (auto simp: Let_def split: sum.splits)
  from process_videos_true [OF 1] have b1: b1 .
  with Cons.prems(1) ne 1 obtain b2 w2 where
    2: "process_videos E opts ?ts ?te ''R'' ?vr (chunk_title E chunk @ '' Rear'') w1 =
          Inr (b2, w2)"
    by (auto simp: Let_def split: sum.splits)
  from process_videos_true [OF 2] have b2: b2 .
  with Cons.prems(1) ne 1 2 b1 have 3: "process_chunks E opts chunks w2 = Inr w'"
    by (simp add: Let_def)
  have elig: "\<forall>v\<in>set ?vf \<union> set ?vr. v \<in> set chunk \<and> ext v = ''mp4'' \<and>
      (endswith (rtype v) ''F'' \<or> endswith (rtype v) ''R'')"
    by (auto simp: split_videos_filter)
  from Cons.IH [OF 3 Cons.prems(2)] process_videos_effect [OF 2] process_videos_effect [OF 1] elig
  show ?case by (simp add: Bex_def) blast
qed

text \<open>One chunk of \<^verbatim>\<open>process_chunks\<close>, by its two calls of
  \<^verbatim>\<open>process_videos\<close>.\<close>

lemma process_chunks_Cons:
  assumes "process_chunks E opts (chunk # chunks) w = Inr w'"
  shows "chunk \<noteq> [] \<and>
    (\<exists>w1 w2.
       process_videos E opts (strftime E ''%Y%m%d_%H%M%S'' (datetime (hd chunk)))
         (strftime E ''%Y%m%d_%H%M%S'' (datetime (last chunk))) ''F''
         (fst (split_videos [] [] chunk)) (chunk_title E chunk @ '' Front'')
         (logger DEBUG (Span (strftime E ''%Y%m%d_%H%M%S'' (datetime (hd chunk)))
                             (strftime E ''%Y%m%d_%H%M%S'' (datetime (last chunk)))) w) =
         Inr (True, w1) \<and>
       process_videos E opts (strftime E ''%Y%m%d_%H%M%S'' (datetime (hd chunk)))
         (strftime E ''%Y%m%d_%H%M%S'' (datetime (last chunk))) ''R''
         (snd (split_videos [] [] chunk)) (chunk_title E chunk @ '' Rear'') w1 =
         Inr (True, w2) \<and>
       process_chunks E opts chunks w2 = Inr w')"
proof -
  let ?ts = "strftime E ''%Y%m%d_%H%M%S'' (datetime (hd chunk))"
  let ?te = "strftime E ''%Y%m%d_%H%M%S'' (datetime (last chunk))"
  let ?w0 = "logger DEBUG (Span ?ts ?te) w"
  let ?vf = "fst (split_videos [] [] chunk)"
  let ?vr = "snd (split_videos [] [] chunk)"
  from assms have ne: "chunk \<noteq> []" by (auto split: if_splits)
  with assms obtain b1 w1 where
    1: "process_videos E opts ?ts ?te ''F'' ?vf (chunk_title E chunk @ '' Front'') ?w0 =
          Inr (b1, w1)"
    by (auto simp: Let_def split: sum.splits)
  from process_videos_true [OF 1] have b1: b1 .
  with assms ne 1 obtain b2 w2 where
    2: "process_videos E opts ?ts ?te ''R'' ?vr (chunk_title E chunk @ '' Rear'') w1 =
          Inr (b2, w2)"
    by (auto simp: Let_def split: sum.splits)
  from process_videos_true [OF 2] have b2: b2 .
  with assms ne 1 2 b1 have 3: "process_chunks E opts chunks w2 = Inr w'"
    by (simp add: Let_def)
  from ne 1 2 3 b1 b2 show ?thesis by auto
qed

lemma process_chunks_step:
  assumes "chunk \<noteq> []"
    and "process_videos E opts (strftime E ''%Y%m%d_%H%M%S'' (datetime (hd chunk)))
         (strftime E ''%Y%m%d_%H%M%S'' (datetime (last chunk))) ''F''
         (fst (split_videos [] [] chunk)) (chunk_title E chunk @ '' Front'')
         (logger DEBUG (Span (strftime E ''%Y%m%d_%H%M%S'' (datetime (hd chunk)))
                             (strftime E ''%Y%m%d_%H%M%S'' (datetime (last chunk)))) w) =
         Inr (True, w1)"
    and "process_videos E opts (strftime E ''%Y%m%d_%H%M%S'' (datetime (hd chunk)))
         (strftime E ''%Y%m%d_%H%M%S'' (datetime (last chunk))) ''R''
         (snd (split_videos [] [] chunk)) (chunk_title E chunk @ '' Rear'') w1 =
         Inr (True, w2)"
  shows "process_chunks E opts (chunk # chunks) w = process_chunks E opts chunks w2"
  using assms by (simp add: Let_def)

lemma camera_done_mono:
  "\<forall>p. exists w p \<longrightarrow> exists w' p \<Longrightarrow> camera_done E opts w chunk cam videos \<Longrightarrow>
   camera_done E opts w' chunk cam videos"
  by (auto simp: camera_done_def)

lemma chunk_done_mono:
  "\<forall>p. exists w p \<longrightarrow> exists w' p \<Longrightarrow> chunk_done E opts w chunk \<Longrightarrow> chunk_done E opts w' chunk"
  unfolding chunk_done_def using camera_done_mono [of w w' E opts chunk] by blast

text \<open>After a run that returned, every chunk is done.\<close>

lemma process_chunks_made:
  assumes "\<not> no_output opts"
    and "\<forall>fs m out rc. ffmpeg_concat E fs m out \<noteq> MCompleted rc None"
  shows "process_chunks E opts chunks w = Inr w' \<Longrightarrow>
         (\<forall>p. exists w p \<longrightarrow> exists w' p) \<and> (\<forall>chunk\<in>set chunks. chunk_done E opts w' chunk)"
proof (induction chunks arbitrary: w)
  case Nil
  then show ?case by simp
next
  case (Cons chunk chunks)
  let ?ts = "strftime E ''%Y%m%d_%H%M%S'' (datetime (hd chunk))"
  let ?te = "strftime E ''%Y%m%d_%H%M%S'' (datetime (last chunk))"
  let ?w0 = "logger DEBUG (Span ?ts ?te) w"
  from process_chunks_Cons [OF Cons.prems] obtain w1 w2 where
    ne: "chunk \<noteq> []" and
    1: "process_videos E opts ?ts ?te ''F'' (fst (split_videos [] [] chunk))
          (chunk_title E chunk @ '' Front'') ?w0 = Inr (True, w1)" and
    2: "process_videos E opts ?ts ?te ''R'' (snd (split_videos [] [] chunk))
          (chunk_title E chunk @ '' Rear'') w1 = Inr (True, w2)" and
    3: "process_chunks E opts chunks w2 = Inr w'"
    by blast
  note e1 = process_videos_effect [OF 1] and e2 = process_videos_effect [OF 2]
    and ih = Cons.IH [OF 3]
  have m01: "\<forall>p. exists w p \<longrightarrow> exists w1 p" using e1 by simp
  have m12: "\<forall>p. exists w1 p \<longrightarrow> exists w2 p" using e2 by simp
  have m2: "\<forall>p. exists w2 p \<longrightarrow> exists w' p" using ih by simp
  have f: "camera_done E opts w1 chunk ''F'' (fst (split_videos [] [] chunk))"
    using e1 assms by (simp add: camera_done_def session_name_def)
  have r: "camera_done E opts w2 chunk ''R'' (snd (split_videos [] [] chunk))"
    using e2 assms by (simp add: camera_done_def session_name_def)
  from f m12 have f2: "camera_done E opts w2 chunk ''F'' (fst (split_videos [] [] chunk))"
    by (rule camera_done_mono [rotated])
  from ne f2 r have "chunk_done E opts w2 chunk" by (simp add: chunk_done_def)
  with m2 have "chunk_done E opts w' chunk" by (rule chunk_done_mono)
  with ih m01 m12 m2 show ?case by auto
qed

text \<open>Where every chunk is done, a run writes no file and starts no process.\<close>

lemma process_chunks_ready:
  assumes "\<not> overwrite opts"
  shows "\<forall>chunk\<in>set chunks. chunk_done E opts w chunk \<Longrightarrow>
         \<exists>w'. process_chunks E opts chunks w = Inr w' \<and> files w' = files w \<and> calls w' = calls w"
proof (induction chunks arbitrary: w)
  case Nil
  then show ?case by simp
next
  case (Cons chunk chunks)
  let ?ts = "strftime E ''%Y%m%d_%H%M%S'' (datetime (hd chunk))"
  let ?te = "strftime E ''%Y%m%d_%H%M%S'' (datetime (last chunk))"
  let ?w0 = "logger DEBUG (Span ?ts ?te) w"
  from Cons.prems have d: "chunk_done E opts w chunk" by simp
  then have ne: "chunk \<noteq> []" by (simp add: chunk_done_def)
  have d0: "chunk_done E opts ?w0 chunk"
    using d by (rule chunk_done_mono [rotated]) simp
  from d0 have "concat_threshold opts < int (length (fst (split_videos [] [] chunk))) \<longrightarrow>
      exists ?w0 (work_dir opts, ?ts @ ''-'' @ ?te @ ''_'' @ ''F'' @ ''.con'') \<and>
      exists ?w0 (output_dir opts, ?ts @ ''-'' @ ?te @ ''_'' @ ''F'' @ ''.mp4'')"
    by (simp add: chunk_done_def camera_done_def session_name_def)
  from process_videos_ready [OF assms this, of E "chunk_title E chunk @ '' Front''"]
  obtain w1 where
    1: "process_videos E opts ?ts ?te ''F'' (fst (split_videos [] [] chunk))
          (chunk_title E chunk @ '' Front'') ?w0 = Inr (True, w1)" and
    s1: "files w1 = files ?w0" "calls w1 = calls ?w0"
    by blast
  have d1: "chunk_done E opts w1 chunk"
    using d0 s1(1) by (simp add: chunk_done_def camera_done_def exists_def)
  then have "concat_threshold opts < int (length (snd (split_videos [] [] chunk))) \<longrightarrow>
      exists w1 (work_dir opts, ?ts @ ''-'' @ ?te @ ''_'' @ ''R'' @ ''.con'') \<and>
      exists w1 (output_dir opts, ?ts @ ''-'' @ ?te @ ''_'' @ ''R'' @ ''.mp4'')"
    by (simp add: chunk_done_def camera_done_def session_name_def)
  from process_videos_ready [OF assms this, of E "chunk_title E chunk @ '' Rear''"]
  obtain w2 where
    2: "process_videos E opts ?ts ?te ''R'' (snd (split_videos [] [] chunk))
          (chunk_title E chunk @ '' Rear'') w1 = Inr (True, w2)" and
    s2: "files w2 = files w1" "calls w2 = calls w1"
    by blast
  have "\<forall>c\<in>set chunks. chunk_done E opts w2 c"
    using Cons.prems s1(1) s2(1) by (simp add: chunk_done_def camera_done_def exists_def)
  from Cons.IH [OF this] obtain w' where
    3: "process_chunks E opts chunks w2 = Inr w'" "files w' = files w2" "calls w' = calls w2"
    by blast
  from process_chunks_step [OF ne 1 2, of chunks] 3 s1 s2 show ?case by simp
qed

lemma chunk_done_env:
  "strftime E' = strftime E \<Longrightarrow> chunk_done E' opts w chunk = chunk_done E opts w chunk"
  by (simp add: chunk_done_def camera_done_def session_name_def)

text \<open>
  C8, amended: with \<^verbatim>\<open>overwrite\<close> disabled, \<^verbatim>\<open>create_concat_file\<close> returns
  before any fingerprinting or writing when the manifest exists, and
  \<^verbatim>\<open>create_output_file\<close> returns before the merge when the output exists. So
  processing the chunks again (\<^verbatim>\<open>no_output\<close> disabled too), after a run of
  \<^verbatim>\<open>process_chunks\<close> that returned and whose merges each left their output file,
  writes no file and starts no process, whatever the external processes would do now.
  The retention sweep that ends a run is not part of this: it may delete a manifest and
  an output the run has just made, and a second run then makes them again.
\<close>

theorem rerun_creates_nothing:
  "(exists w (path, name) \<longrightarrow>
      create_concat_file E path name videos no False w =
        Inr (None, logger INFO (SkippedExists name) w)) \<and>
   (exists w (po, oname) \<longrightarrow>
      create_output_file E pw cname po oname no False w =
        Inr (Some True, logger INFO (ConcatSkipped oname) w)) \<and>
   (\<not> overwrite opts \<and> \<not> no_output opts \<and>
    (\<forall>fs m out rc. ffmpeg_concat E fs m out \<noteq> MCompleted rc None) \<and>
    process_chunks E opts chunks w0 = Inr w1 \<and> strftime E' = strftime E \<longrightarrow>
      (\<exists>w2. process_chunks E' opts chunks w1 = Inr w2 \<and>
            files w2 = files w1 \<and> calls w2 = calls w1))"
proof (intro conjI impI)
  assume "exists w (path, name)"
  then show "create_concat_file E path name videos no False w =
        Inr (None, logger INFO (SkippedExists name) w)"
    by (simp add: create_concat_file_skip)
next
  assume "exists w (po, oname)"
  then show "create_output_file E pw cname po oname no False w =
        Inr (Some True, logger INFO (ConcatSkipped oname) w)"
    by (simp add: create_output_file_skip)
next
  assume a: "\<not> overwrite opts \<and> \<not> no_output opts \<and>
    (\<forall>fs m out rc. ffmpeg_concat E fs m out \<noteq> MCompleted rc None) \<and>
    process_chunks E opts chunks w0 = Inr w1 \<and> strftime E' = strftime E"
  then have ow: "\<not> overwrite opts" and no: "\<not> no_output opts"
    and tool: "\<forall>fs m out rc. ffmpeg_concat E fs m out \<noteq> MCompleted rc None"
    and run1: "process_chunks E opts chunks w0 = Inr w1" and env: "strftime E' = strftime E"
    by auto
  from process_chunks_made [OF no tool run1] have "\<forall>chunk\<in>set chunks. chunk_done E opts w1 chunk"
    by simp
  then have "\<forall>chunk\<in>set chunks. chunk_done E' opts w1 chunk"
    by (simp add: chunk_done_env [OF env])
  from process_chunks_ready [OF ow this]
  show "\<exists>w2. process_chunks E' opts chunks w1 = Inr w2 \<and>
            files w2 = files w1 \<and> calls w2 = calls w1" .
qed

text \<open>
  C10: the front list of a chunk holds its recordings with extension \<^verbatim>\<open>mp4\<close>
  whose role ends in \<^verbatim>\<open>F\<close>, the rear list those whose role ends in \<^verbatim>\<open>R\<close>, both
  in the chunk's order. An \<^verbatim>\<open>mp4\<close> recording whose role ends otherwise is in
  neither list; every fingerprint process that \<^verbatim>\<open>process_chunks\<close> starts is for
  the path of a recording of a chunk with extension \<^verbatim>\<open>mp4\<close> and a role ending in
  \<^verbatim>\<open>F\<close> or \<^verbatim>\<open>R\<close>. The chunker leaves no recording out: the chunks, joined, are
  the sequence of recordings.
\<close>

theorem camera_lists_by_role_suffix:
  "split_videos [] [] chunk =
     (filter (\<lambda>item. ext item = ''mp4'' \<and> endswith (rtype item) ''F'') chunk,
      filter (\<lambda>item. ext item = ''mp4'' \<and> endswith (rtype item) ''R'') chunk) \<and>
   (item \<in> set chunk \<and> ext item = ''mp4'' \<and> \<not> endswith (rtype item) ''F'' \<and>
    \<not> endswith (rtype item) ''R'' \<longrightarrow>
      item \<notin> set (fst (split_videos [] [] chunk)) \<and>
      item \<notin> set (snd (split_videos [] [] chunk))) \<and>
   (process_chunks E opts chunks w = Inr w' \<and> Framemd5 p \<in> set (calls w') \<and>
    Framemd5 p \<notin> set (calls w) \<longrightarrow>
      (\<exists>c\<in>set chunks. \<exists>v\<in>set c. p = video_path v \<and> ext v = ''mp4'' \<and>
         (endswith (rtype v) ''F'' \<or> endswith (rtype v) ''R''))) \<and>
   (add_all opts [] rs = Inr cs \<longrightarrow> concat cs = rs)"
proof (intro conjI impI)
  have "filter (\<lambda>item. ext item = ''mp4'' \<and> \<not> endswith (rtype item) ''F'' \<and>
                        endswith (rtype item) ''R'') chunk =
        filter (\<lambda>item. ext item = ''mp4'' \<and> endswith (rtype item) ''R'') chunk"
    by (rule filter_cong) (auto dest: endswith_F_not_R)
  then show "split_videos [] [] chunk =
     (filter (\<lambda>item. ext item = ''mp4'' \<and> endswith (rtype item) ''F'') chunk,
      filter (\<lambda>item. ext item = ''mp4'' \<and> endswith (rtype item) ''R'') chunk)"
    by (simp add: split_videos_filter)
next
  assume "item \<in> set chunk \<and> ext item = ''mp4'' \<and> \<not> endswith (rtype item) ''F'' \<and>
    \<not> endswith (rtype item) ''R''"
  then show "item \<notin> set (fst (split_videos [] [] chunk))"
    and "item \<notin> set (snd (split_videos [] [] chunk))"
    by (simp_all add: split_videos_filter)
next
  assume "process_chunks E opts chunks w = Inr w' \<and> Framemd5 p \<in> set (calls w') \<and>
    Framemd5 p \<notin> set (calls w)"
  with process_chunks_calls [of E opts chunks w w' p]
  show "\<exists>c\<in>set chunks. \<exists>v\<in>set c. p = video_path v \<and> ext v = ''mp4'' \<and>
         (endswith (rtype v) ''F'' \<or> endswith (rtype v) ''R'')"
    by blast
next
  assume "add_all opts [] rs = Inr cs"
  with add_all_total [of "[]" opts rs] show "concat cs = rs" by auto
qed

section \<open>The example run\<close>

text \<open>
  The chunker and \<^verbatim>\<open>process_chunks\<close> on the example directory, step by step.
\<close>

lemma sample_listing:
  "sorted_listdir (sample_world\<lparr>logs := l, calls := c\<rparr>) ''/rec'' =
     [''20230101_100000_NF.gps'', ''20230101_100000_NF.mp4'', ''20230101_100000_NX.mp4'',
      ''20230101_100030_NF.mp4'', ''20230101_100100_NF.mp4'', ''notes.txt'']"
proof -
  have "sort [''20230101_100100_NF.mp4'', ''20230101_100000_NF.mp4'', ''20230101_100030_NF.mp4'',
              ''20230101_100000_NF.gps'', ''notes.txt'', ''20230101_100000_NX.mp4''] =
     [''20230101_100000_NF.gps'', ''20230101_100000_NF.mp4'', ''20230101_100000_NX.mp4'',
      ''20230101_100030_NF.mp4'', ''20230101_100100_NF.mp4'', ''notes.txt'']"
    by code_simp
  then show ?thesis
    by (simp add: sorted_listdir_def listdir_def sample_world_def)
qed

lemmas match_defs =
  match_recording_def match_derived_def match_stamp_def match_role_ext_def is_digit_def is_upper_def

lemma sample_reads:
  "read_recording sample_env sample_opts (sample_world\<lparr>logs := l, calls := c\<rparr>)
     ''20230101_100000_NF.gps'' = Inr (Some gps_100000)"
  "read_recording sample_env sample_opts (sample_world\<lparr>logs := l, calls := c\<rparr>)
     ''20230101_100000_NF.mp4'' = Inr (Some normal_100000)"
  "read_recording sample_env sample_opts (sample_world\<lparr>logs := l, calls := c\<rparr>)
     ''20230101_100000_NX.mp4'' = Inr None"
  "read_recording sample_env sample_opts (sample_world\<lparr>logs := l, calls := c\<rparr>)
     ''20230101_100030_NF.mp4'' = Inr (Some normal_100030)"
  "read_recording sample_env sample_opts (sample_world\<lparr>logs := l, calls := c\<rparr>)
     ''20230101_100100_NF.mp4'' = Inr (Some normal_100100)"
  "read_recording sample_env sample_opts (sample_world\<lparr>logs := l, calls := c\<rparr>)
     ''notes.txt'' = Inr None"
  by (simp_all add: read_recording_def isfile_def sample_world_def sample_opts_def match_defs
      sample_env_def sample_times_def gps_100000_def normal_100000_def normal_100030_def
      normal_100100_def sample_rec_def)

lemma sample_steps:
  "add_recording sample_opts [] gps_100000 = Inr [[gps_100000]]"
  "add_recording sample_opts [[gps_100000]] normal_100000 = Inr [[gps_100000, normal_100000]]"
  "add_recording sample_opts [[gps_100000, normal_100000]] normal_100030 =
     Inr [[gps_100000, normal_100000, normal_100030]]"
  "add_recording sample_opts [[gps_100000, normal_100000, normal_100030]] normal_100100 =
     Inr [[gps_100000, normal_100000, normal_100030, normal_100100]]"
  by (simp_all add: add_recording_def new_chunk_def append_last_def Let_def sample_opts_def
      gps_100000_def normal_100000_def normal_100030_def normal_100100_def sample_rec_def
      impact_flag_def startswith_def)

lemma sample_dirs:
  "source_dir sample_opts = ''/rec''" "work_dir sample_opts = ''/work''"
  "output_dir sample_opts = ''/out''" "concat_threshold sample_opts = 2"
  "retention sample_opts = 14" "\<not> overwrite sample_opts" "\<not> no_output sample_opts"
  "\<not> initial_impact sample_opts" "consecutive_threshold sample_opts = 64"
  by (simp_all add: sample_opts_def)

lemma sample_chunks:
  "create_chunks sample_env sample_opts (sample_world\<lparr>logs := l, calls := c\<rparr>) =
     Inr [sample_chunk]"
  by (simp add: create_chunks_def sample_dirs sample_listing sample_reads sample_steps
      sample_chunk_def)

lemma sample_split:
  "split_videos [] [] sample_chunk = ([normal_100000, normal_100030, normal_100100], [])"
  by (simp add: sample_chunk_def gps_100000_def normal_100000_def normal_100030_def
      normal_100100_def sample_rec_def endswith_def)

lemma sample_stamps:
  "strftime sample_env ''%Y%m%d_%H%M%S'' (datetime (hd sample_chunk)) = ''20230101_100000''"
  "strftime sample_env ''%Y%m%d_%H%M%S'' (datetime (last sample_chunk)) = ''20230101_100100''"
  "chunk_title sample_env sample_chunk = ''2023/01/01 10:00:00 - 10:01:00''"
  by (simp_all add: chunk_title_def date_def sample_chunk_def gps_100000_def normal_100100_def
      sample_rec_def sample_env_def sample_strftime_def sample_times_def)

lemma sample_loop:
  "concat_loop sample_env [normal_100000, normal_100030, normal_100100]
     (concat_init, \<lparr>files = f, dirs = d, logs = l, calls = c\<rparr>) =
   Inr (\<lparr>records = [(''/rec/20230101_100000_NF.mp4'', PyInt 0),
                     (''/rec/20230101_100030_NF.mp4'', PyFloat 2),
                     (''/rec/20230101_100100_NF.mp4'', PyInt 0)],
         md5_last_frame = Some ''ee'', md5 = Some ''ee'',
         result = Some (0, output_100100, [])\<rparr>,
        \<lparr>files = f, dirs = d,
         logs = l @ [(DEBUG, FingerprintDone ''20230101_100000_NF.mp4'' 0 ''0''),
                     (WARNING, FingerprintDone ''20230101_100030_NF.mp4'' 1 ''2.0''),
                     (DEBUG, FingerprintDone ''20230101_100100_NF.mp4'' 0 ''0'')],
         calls = c @ [Framemd5 ''/rec/20230101_100000_NF.mp4'',
                      Framemd5 ''/rec/20230101_100030_NF.mp4'',
                      Framemd5 ''/rec/20230101_100100_NF.mp4'']\<rparr>)"
  by (simp add: concat_step_completed [OF sample_processes(1) frames_100000]
      concat_step_completed [OF sample_processes(2) frames_100030]
      concat_step_completed [OF sample_processes(3) frames_100100]
      concat_init_def sample_paths sample_filenames sample_formats last_match_samples Let_def
      logger_def)

lemma update_absent: "map_of al k = None \<Longrightarrow> AList.update k v al = al @ [(k, v)]"
  by (induction al) auto

lemma delete_appended:
  "map_of al k = None \<Longrightarrow> AList.delete k (al @ [(k, v)] @ bl) = al @ AList.delete k bl"
  by (induction al) auto

lemma sample_manifest_step:
  assumes "map_of f (''/work'', ''20230101_100000-20230101_100100_F.con'') = None"
  shows "create_concat_file sample_env ''/work'' ''20230101_100000-20230101_100100_F.con''
     [normal_100000, normal_100030, normal_100100] False False
     \<lparr>files = f, dirs = d, logs = l, calls = c\<rparr> =
   Inr (Some True,
        \<lparr>files = f @
           [((''/work'', ''20230101_100000-20230101_100100_F.con''), File sample_manifest)],
         dirs = d,
         logs = l @ [(DEBUG, FingerprintDone ''20230101_100000_NF.mp4'' 0 ''0''),
                     (WARNING, FingerprintDone ''20230101_100030_NF.mp4'' 1 ''2.0''),
                     (DEBUG, FingerprintDone ''20230101_100100_NF.mp4'' 0 ''0''),
                     (INFO, Created ''20230101_100000-20230101_100100_F.con'')],
         calls = c @ [Framemd5 ''/rec/20230101_100000_NF.mp4'',
                      Framemd5 ''/rec/20230101_100030_NF.mp4'',
                      Framemd5 ''/rec/20230101_100100_NF.mp4'']\<rparr>)"
  unfolding create_concat_file_def
  by (simp add: exists_def assms sample_loop write_file_def update_absent logger_def
      sample_manifest_def del: concat_loop.simps)

lemma sample_output_step:
  assumes "map_of f (''/out'', ''20230101_100000-20230101_100100_F.mp4'') = None"
  shows "create_output_file sample_env ''/work'' ''20230101_100000-20230101_100100_F.con''
     ''/out'' ''20230101_100000-20230101_100100_F.mp4'' False False
     \<lparr>files = f, dirs = d, logs = l, calls = c\<rparr> =
   Inr (Some True,
        \<lparr>files = f @
           [((''/out'', ''20230101_100000-20230101_100100_F.mp4''), File ''media'')],
         dirs = d,
         logs = l @ [(INFO, MergeCreated ''20230101_100000-20230101_100100_F.mp4'' 0)],
         calls = c @ [Concat ''/work/20230101_100000-20230101_100100_F.con''
                             ''/out/20230101_100000-20230101_100100_F.mp4'']\<rparr>)"
  unfolding create_output_file_def
  by (simp add: exists_def assms update_absent logger_def sample_env_def Let_def
      path_join_def startswith_def endswith_def)

lemma sample_front:
  assumes "map_of f (''/work'', ''20230101_100000-20230101_100100_F.con'') = None"
    and "map_of f (''/out'', ''20230101_100000-20230101_100100_F.mp4'') = None"
  shows "process_videos sample_env sample_opts ''20230101_100000'' ''20230101_100100'' ''F''
     [normal_100000, normal_100030, normal_100100] title
     \<lparr>files = f, dirs = d, logs = l, calls = c\<rparr> =
   Inr (True,
        \<lparr>files = f @
           [((''/work'', ''20230101_100000-20230101_100100_F.con''), File sample_manifest),
            ((''/out'', ''20230101_100000-20230101_100100_F.mp4''), File ''media'')],
         dirs = d,
         logs = l @ [(DEBUG, FingerprintDone ''20230101_100000_NF.mp4'' 0 ''0''),
                     (WARNING, FingerprintDone ''20230101_100030_NF.mp4'' 1 ''2.0''),
                     (DEBUG, FingerprintDone ''20230101_100100_NF.mp4'' 0 ''0''),
                     (INFO, Created ''20230101_100000-20230101_100100_F.con''),
                     (INFO, MergeCreated ''20230101_100000-20230101_100100_F.mp4'' 0)],
         calls = c @ [Framemd5 ''/rec/20230101_100000_NF.mp4'',
                      Framemd5 ''/rec/20230101_100030_NF.mp4'',
                      Framemd5 ''/rec/20230101_100100_NF.mp4'',
                      Concat ''/work/20230101_100000-20230101_100100_F.con''
                             ''/out/20230101_100000-20230101_100100_F.mp4'']\<rparr>)"
proof -
  have gt: "concat_threshold sample_opts <
              int (length [normal_100000, normal_100030, normal_100100])"
    by (simp add: sample_dirs)
  have names: "''20230101_100000'' @ ''-'' @ ''20230101_100100'' @ ''_'' @ ''F'' @ ''.con'' =
                 ''20230101_100000-20230101_100100_F.con''"
    "''20230101_100000'' @ ''-'' @ ''20230101_100100'' @ ''_'' @ ''F'' @ ''.mp4'' =
       ''20230101_100000-20230101_100100_F.mp4''"
    by simp_all
  have out: "map_of (f @ [((''/work'', ''20230101_100000-20230101_100100_F.con''),
                           File sample_manifest)])
               (''/out'', ''20230101_100000-20230101_100100_F.mp4'') = None"
    using assms(2) by (simp add: map_add_def map_of_append)
  show ?thesis
    by (simp only: process_videos_merge [OF gt] names sample_dirs
        sample_manifest_step [OF assms(1)] sample_output_step [OF out]
        sum.case prod.case) simp
qed

lemma sample_process:
  "process_chunks sample_env sample_opts [sample_chunk] (sample_world\<lparr>logs := l, calls := c\<rparr>) =
     Inr (world_processed l c)"
proof -
  let ?w = "sample_world\<lparr>logs := l, calls := c\<rparr>"
  let ?w1 = "\<lparr>files = files sample_world @
           [((''/work'', ''20230101_100000-20230101_100100_F.con''), File sample_manifest),
            ((''/out'', ''20230101_100000-20230101_100100_F.mp4''), File ''media'')],
         dirs = [''/rec'', ''/work'', ''/out''],
         logs = (l @ [(DEBUG, Span ''20230101_100000'' ''20230101_100100'')]) @
                    [(DEBUG, FingerprintDone ''20230101_100000_NF.mp4'' 0 ''0''),
                     (WARNING, FingerprintDone ''20230101_100030_NF.mp4'' 1 ''2.0''),
                     (DEBUG, FingerprintDone ''20230101_100100_NF.mp4'' 0 ''0''),
                     (INFO, Created ''20230101_100000-20230101_100100_F.con''),
                     (INFO, MergeCreated ''20230101_100000-20230101_100100_F.mp4'' 0)],
         calls = c @ [Framemd5 ''/rec/20230101_100000_NF.mp4'',
                      Framemd5 ''/rec/20230101_100030_NF.mp4'',
                      Framemd5 ''/rec/20230101_100100_NF.mp4'',
                      Concat ''/work/20230101_100000-20230101_100100_F.con''
                             ''/out/20230101_100000-20230101_100100_F.mp4'']\<rparr>"
  let ?w2 = "logger INFO (SkippedThreshold (chunk_title sample_env sample_chunk @ '' Rear'') 2) ?w1"
  have w: "logger DEBUG (Span ''20230101_100000'' ''20230101_100100'') ?w =
           \<lparr>files = files sample_world, dirs = [''/rec'', ''/work'', ''/out''],
            logs = l @ [(DEBUG, Span ''20230101_100000'' ''20230101_100100'')], calls = c\<rparr>"
    by (simp add: logger_def sample_world_def)
  have a: "map_of (files sample_world) (''/work'', ''20230101_100000-20230101_100100_F.con'') = None"
    "map_of (files sample_world) (''/out'', ''20230101_100000-20230101_100100_F.mp4'') = None"
    by (simp_all add: sample_world_def)
  have ne: "sample_chunk \<noteq> []" by (simp add: sample_chunk_def)
  have front: "process_videos sample_env sample_opts
      (strftime sample_env ''%Y%m%d_%H%M%S'' (datetime (hd sample_chunk)))
      (strftime sample_env ''%Y%m%d_%H%M%S'' (datetime (last sample_chunk))) ''F''
      (fst (split_videos [] [] sample_chunk)) (chunk_title sample_env sample_chunk @ '' Front'')
      (logger DEBUG (Span (strftime sample_env ''%Y%m%d_%H%M%S'' (datetime (hd sample_chunk)))
                          (strftime sample_env ''%Y%m%d_%H%M%S'' (datetime (last sample_chunk)))) ?w) =
      Inr (True, ?w1)"
    by (simp only: sample_stamps(1,2) sample_split fst_conv w sample_front [OF a])
  have rear: "process_videos sample_env sample_opts
      (strftime sample_env ''%Y%m%d_%H%M%S'' (datetime (hd sample_chunk)))
      (strftime sample_env ''%Y%m%d_%H%M%S'' (datetime (last sample_chunk))) ''R''
      (snd (split_videos [] [] sample_chunk)) (chunk_title sample_env sample_chunk @ '' Rear'')
      ?w1 = Inr (True, ?w2)"
    by (simp add: process_videos_skip sample_dirs sample_split)
  have "process_chunks sample_env sample_opts [sample_chunk] ?w =
          process_chunks sample_env sample_opts [] ?w2"
    by (rule process_chunks_step [OF ne front rear])
  moreover have "?w2 = world_processed l c"
    by (simp add: logger_def world_processed_def process_logs_def process_calls_def sample_stamps)
  ultimately show ?thesis by (simp only: process_chunks.simps)
qed

section \<open>Properties of the retention sweeper\<close>

lemma isfile_logger [simp]: "isfile (logger l m w) p = isfile w p"
  by (simp add: isfile_def)

lemma doomed_logger [simp]:
  "doomed E d pat today_obj ret (logger l m w) f = doomed E d pat today_obj ret w f"
  by (simp add: doomed_def)

text \<open>One iteration of the sweep.\<close>

lemma cleanup_loop_skip:
  "\<not> isfile w (d, f) \<or> pat f = None \<Longrightarrow>
   cleanup_loop E d pat today_obj ret w (f # fs) = cleanup_loop E d pat today_obj ret w fs"
  by (auto split: option.splits)

lemma cleanup_loop_file:
  assumes "isfile w (d, f)" and "pat f = Some (g1, g2, g3, g4)" and "strptime E g1 = Some t"
    and "\<bar>ret\<bar> \<le> 999999999"
  shows "cleanup_loop E d pat today_obj ret w (f # fs) =
     cleanup_loop E d pat today_obj ret
       (if today_obj - date t \<le> ret then w
        else if remove_raises E (d, f) then
          logger ERROR (RemoveError (path_join d f)) (logger INFO (Deleting (path_join d f)) w)
        else (logger INFO (Deleting (path_join d f)) w)
               \<lparr>files := AList.delete (d, f) (files w)\<rparr>) fs"
  using assms by (simp add: timedelta_days_def Let_def)

lemma cleanup_loop_returns:
  assumes "cleanup_loop E d pat today_obj ret w (f # fs) = Inr w'"
    and "isfile w (d, f)" and "pat f = Some (g1, g2, g3, g4)"
  shows "(\<exists>t. strptime E g1 = Some t) \<and> \<bar>ret\<bar> \<le> 999999999"
  using assms by (auto simp: timedelta_days_def split: option.splits if_splits)

text \<open>What a sweep that returns leaves of the entries.\<close>

lemma cleanup_loop_files:
  "cleanup_loop E d pat today_obj ret w fs = Inr w' \<Longrightarrow>
   map_of (files w') k =
     (if fst k = d \<and> snd k \<in> set fs \<and> doomed E d pat today_obj ret w (snd k) then None
      else map_of (files w) k)"
proof (induction fs arbitrary: w)
  case Nil
  then show ?case by simp
next
  case (Cons f fs)
  show ?case
  proof (cases "\<not> isfile w (d, f) \<or> pat f = None")
    case True
    then have nd: "\<not> doomed E d pat today_obj ret w f" by (auto simp: doomed_def)
    have "cleanup_loop E d pat today_obj ret w (f # fs) =
            cleanup_loop E d pat today_obj ret w fs"
      by (rule cleanup_loop_skip [where pat = pat, OF True])
    with Cons.prems have "cleanup_loop E d pat today_obj ret w fs = Inr w'"
      by (simp del: cleanup_loop.simps)
    from Cons.IH [OF this] nd show ?thesis by (cases k) auto
  next
    case False
    then obtain g1 g2 g3 g4 where
      isf: "isfile w (d, f)" and pat: "pat f = Some (g1, g2, g3, g4)"
      by (cases "pat f") auto
    from cleanup_loop_returns [where pat = pat, OF Cons.prems isf pat] obtain t where
      t: "strptime E g1 = Some t" and ret: "\<bar>ret\<bar> \<le> 999999999" by blast
    let ?w1 = "if today_obj - date t \<le> ret then w
        else if remove_raises E (d, f) then
          logger ERROR (RemoveError (path_join d f)) (logger INFO (Deleting (path_join d f)) w)
        else (logger INFO (Deleting (path_join d f)) w)
               \<lparr>files := AList.delete (d, f) (files w)\<rparr>"
    have "cleanup_loop E d pat today_obj ret w (f # fs) =
            cleanup_loop E d pat today_obj ret ?w1 fs"
      by (rule cleanup_loop_file [where pat = pat, OF isf pat t ret])
    with Cons.prems have rest: "cleanup_loop E d pat today_obj ret ?w1 fs = Inr w'"
      by (simp del: cleanup_loop.simps)
    note ih = Cons.IH [OF rest]
    have df: "doomed E d pat today_obj ret w f =
                (ret < today_obj - date t \<and> \<not> remove_raises E (d, f))"
      using isf pat t by (simp add: doomed_def)
    show ?thesis
    proof (cases "doomed E d pat today_obj ret w f")
      case False
      with df have w1: "files ?w1 = files w" by auto
      then have "\<And>g. doomed E d pat today_obj ret ?w1 g = doomed E d pat today_obj ret w g"
        by (simp add: doomed_def isfile_def)
      with ih w1 False show ?thesis by (cases k) auto
    next
      case True
      with df have w1: "files ?w1 = AList.delete (d, f) (files w)" by auto
      have other: "doomed E d pat today_obj ret ?w1 g = doomed E d pat today_obj ret w g"
        if "g \<noteq> f" for g
        using that w1 by (simp add: doomed_def isfile_def delete_conv)
      have gone: "map_of (files ?w1) (d, f) = None" using w1 by (simp add: delete_conv)
      show ?thesis
      proof (cases "k = (d, f)")
        case k: True
        with ih gone True show ?thesis by simp
      next
        case k: False
        then have "fst k = d \<longrightarrow> snd k \<noteq> f" by (cases k) auto
        with ih other [of "snd k"] w1 k show ?thesis
          by (auto simp: delete_conv)
      qed
    qed
  qed
qed

lemma in_sorted_listdir: "exists w (d, f) \<Longrightarrow> f \<in> set (sorted_listdir w d)"
proof -
  assume "exists w (d, f)"
  then obtain n where "((d, f), n) \<in> set (files w)"
    by (auto simp: exists_def dest: map_of_SomeD)
  then have "f \<in> (snd \<circ> fst) ` {e \<in> set (files w). fst (fst e) = d}" by force
  then show ?thesis by (simp add: sorted_listdir_def listdir_def)
qed

lemma isfile_exists: "isfile w p \<Longrightarrow> exists w p"
  by (auto simp: isfile_def exists_def split: option.splits)

text \<open>
  C9: in a sweep that returns, a regular file of the swept directory whose name
  matches the pattern, with the start date \<open>date t\<close>, is still there afterwards exactly
  when today is at most \<^verbatim>\<open>retention\<close> days after that date (or its removal
  raised): it is kept when dated exactly \<^verbatim>\<open>retention\<close> days before today, and
  removed when dated \<^verbatim>\<open>retention + 1\<close> days before today.
\<close>

theorem retention_boundary:
  assumes "cleanup_files E d pat today_obj ret w = Inr w'"
    and "isfile w (d, f)" and "pat f = Some (g1, g2, g3, g4)" and "strptime E g1 = Some t"
  shows "(exists w' (d, f) \<longleftrightarrow> today_obj - date t \<le> ret \<or> remove_raises E (d, f)) \<and>
         (today_obj - date t = ret \<longrightarrow> exists w' (d, f)) \<and>
         (today_obj - date t = ret + 1 \<and> \<not> remove_raises E (d, f) \<longrightarrow> \<not> exists w' (d, f))"
proof -
  from assms(1) have
    loop: "cleanup_loop E d pat today_obj ret w (sorted_listdir w d) = Inr w'"
    by (simp add: cleanup_files_def)
  have ex: "exists w (d, f)" using assms(2) by (rule isfile_exists)
  then have mem: "f \<in> set (sorted_listdir w d)" by (rule in_sorted_listdir)
  have df: "doomed E d pat today_obj ret w f =
              (ret < today_obj - date t \<and> \<not> remove_raises E (d, f))"
    using assms(2-4) by (simp add: doomed_def)
  from cleanup_loop_files [OF loop, of "(d, f)"] mem df ex have
    "exists w' (d, f) \<longleftrightarrow> today_obj - date t \<le> ret \<or> remove_raises E (d, f)"
    by (auto simp: exists_def)
  then show ?thesis by auto
qed

lemmas sweep_defs =
  isfile_def match_defs sample_env_def sample_times_def timedelta_days_def date_def logger_def
  path_join_def startswith_def endswith_def Let_def

lemma sweep_listing:
  "sorted_listdir sweep_world ''/out'' =
     [''20230215_080000-20230215_083000_F.mp4'', ''20230216_080000-20230216_083000_F.mp4'']"
proof -
  have "sort [''20230216_080000-20230216_083000_F.mp4'', ''20230215_080000-20230215_083000_F.mp4''] =
     [''20230215_080000-20230215_083000_F.mp4'', ''20230216_080000-20230216_083000_F.mp4'']"
    by code_simp
  then show ?thesis
    by (simp add: sorted_listdir_def listdir_def sweep_world_def)
qed

lemma sweep_sample:
  "cleanup_files sample_env ''/out'' match_derived 738580 14 sweep_world = Inr sweep_world_after"
  unfolding cleanup_files_def sweep_listing
  by (simp add: sweep_world_def sweep_world_after_def sweep_defs)

lemma processed_listing:
  "sorted_listdir (world_processed l c) ''/work'' = [''20230101_100000-20230101_100100_F.con'']"
  "sorted_listdir (world_processed l c) ''/out'' = [''20230101_100000-20230101_100100_F.mp4'']"
  by (simp_all add: sorted_listdir_def listdir_def world_processed_def sample_world_def)

lemma sweep_processed:
  "cleanup sample_env sample_opts (world_processed l c) =
     Inr (sample_world\<lparr>logs := l @ process_logs @ sweep_logs, calls := c @ process_calls\<rparr>)"
proof -
  let ?w1 = "\<lparr>files = files sample_world @
        [((''/out'', ''20230101_100000-20230101_100100_F.mp4''), File ''media'')],
      dirs = [''/rec'', ''/work'', ''/out''],
      logs = l @ process_logs @
             [(INFO, Deleting ''/work/20230101_100000-20230101_100100_F.con'')],
      calls = c @ process_calls\<rparr>"
  have 1: "cleanup_files sample_env ''/work'' match_derived 738580 14 (world_processed l c) =
             Inr ?w1"
    unfolding cleanup_files_def processed_listing
    by (simp add: world_processed_def sample_world_def sweep_defs)
  have l2: "sorted_listdir ?w1 ''/out'' = [''20230101_100000-20230101_100100_F.mp4'']"
    by (simp add: sorted_listdir_def listdir_def sample_world_def)
  have 2: "cleanup_files sample_env ''/out'' match_derived 738580 14 ?w1 =
             Inr (sample_world\<lparr>logs := l @ process_logs @ sweep_logs, calls := c @ process_calls\<rparr>)"
    unfolding cleanup_files_def l2
    by (simp add: sample_world_def sweep_defs sweep_logs_def)
  have t: "today sample_env = 738580" by (simp add: sample_env_def)
  show ?thesis
    by (simp only: cleanup_def sample_dirs t 1 2 sum.case)
qed

lemma sample_run:
  "run sample_env sample_opts (sample_world\<lparr>logs := l, calls := c\<rparr>) =
     Inr (sample_world\<lparr>logs := l @ [(DEBUG, Started)] @ process_logs @ sweep_logs,
                       calls := c @ process_calls\<rparr>)"
proof -
  have w0: "logger DEBUG Started (sample_world\<lparr>logs := l, calls := c\<rparr>) =
              sample_world\<lparr>logs := l @ [(DEBUG, Started)], calls := c\<rparr>"
    by (simp add: logger_def)
  have d: "dirs (sample_world\<lparr>logs := l @ [(DEBUG, Started)], calls := c\<rparr>) =
             [''/rec'', ''/work'', ''/out'']"
    by (simp add: sample_world_def)
  show ?thesis
    unfolding run_def Let_def w0
    by (simp add: d sample_dirs sample_chunks sample_process sweep_processed
        del: process_chunks.simps)
qed

lemma sample_world_plain: "sample_world\<lparr>logs := [], calls := []\<rparr> = sample_world"
  by (simp add: sample_world_def)

theorem retention_boundary_witness:
  "cleanup_files sample_env ''/out'' match_derived 738580 14 sweep_world = Inr sweep_world_after \<and>
   isfile sweep_world (''/out'', ''20230216_080000-20230216_083000_F.mp4'') \<and>
   match_derived ''20230216_080000-20230216_083000_F.mp4'' =
     Some (''20230216_080000'', ''20230216_083000'', ''F'', ''mp4'') \<and>
   strptime sample_env ''20230216_080000'' = Some 63812131200 \<and>
   738580 - date 63812131200 = 14 \<and>
   exists sweep_world_after (''/out'', ''20230216_080000-20230216_083000_F.mp4'') \<and>
   isfile sweep_world (''/out'', ''20230215_080000-20230215_083000_F.mp4'') \<and>
   match_derived ''20230215_080000-20230215_083000_F.mp4'' =
     Some (''20230215_080000'', ''20230215_083000'', ''F'', ''mp4'') \<and>
   strptime sample_env ''20230215_080000'' = Some 63812044800 \<and>
   738580 - date 63812044800 = 14 + 1 \<and>
   \<not> remove_raises sample_env (''/out'', ''20230215_080000-20230215_083000_F.mp4'') \<and>
   \<not> exists sweep_world_after (''/out'', ''20230215_080000-20230215_083000_F.mp4'')"
proof -
  have k1: "isfile sweep_world (''/out'', ''20230216_080000-20230216_083000_F.mp4'')"
    by (simp add: isfile_def sweep_world_def)
  have k2: "match_derived ''20230216_080000-20230216_083000_F.mp4'' =
     Some (''20230216_080000'', ''20230216_083000'', ''F'', ''mp4'')"
    by (simp add: match_defs)
  have k3: "strptime sample_env ''20230216_080000'' = Some 63812131200"
    by (simp add: sample_env_def sample_times_def)
  have k4: "738580 - date 63812131200 = 14" by (simp add: date_def)
  have o1: "isfile sweep_world (''/out'', ''20230215_080000-20230215_083000_F.mp4'')"
    by (simp add: isfile_def sweep_world_def)
  have o2: "match_derived ''20230215_080000-20230215_083000_F.mp4'' =
     Some (''20230215_080000'', ''20230215_083000'', ''F'', ''mp4'')"
    by (simp add: match_defs)
  have o3: "strptime sample_env ''20230215_080000'' = Some 63812044800"
    by (simp add: sample_env_def sample_times_def)
  have o4: "738580 - date 63812044800 = 14 + 1" by (simp add: date_def)
  have o5: "\<not> remove_raises sample_env (''/out'', ''20230215_080000-20230215_083000_F.mp4'')"
    by (simp add: sample_env_def)
  from retention_boundary [OF sweep_sample k1 k2 k3] k4 have
    kept: "exists sweep_world_after (''/out'', ''20230216_080000-20230216_083000_F.mp4'')"
    by simp
  from retention_boundary [OF sweep_sample o1 o2 o3] o4 o5 have
    gone: "\<not> exists sweep_world_after (''/out'', ''20230215_080000-20230215_083000_F.mp4'')"
    by simp
  from sweep_sample k1 k2 k3 k4 kept o1 o2 o3 o4 o5 gone show ?thesis by simp
qed

section \<open>Running twice\<close>

text \<open>
  C8 as stated fails for the whole pipeline: the recordings of the example are 60 days
  old and the retention is 14 days, so the sweep that ends the first run removes the
  manifest and the output the run has made. The second run over the unchanged source
  directory, \<^verbatim>\<open>overwrite\<close> disabled, finds neither: it starts the fingerprint and
  merge processes again and creates both files again (and sweeps them again).
\<close>

theorem rerun_after_sweep_counterexample:
  "\<not> overwrite sample_opts \<and>
   run sample_env sample_opts sample_world = Inr world_after_run \<and>
   files world_after_run = files sample_world \<and>
   \<not> exists world_after_run (''/work'', ''20230101_100000-20230101_100100_F.con'') \<and>
   \<not> exists world_after_run (''/out'', ''20230101_100000-20230101_100100_F.mp4'') \<and>
   create_chunks sample_env sample_opts (logger DEBUG Started world_after_run) =
     Inr [sample_chunk] \<and>
   process_chunks sample_env sample_opts [sample_chunk] (logger DEBUG Started world_after_run) =
     Inr (world_processed (logs world_after_run @ [(DEBUG, Started)]) (calls world_after_run)) \<and>
   exists (world_processed (logs world_after_run @ [(DEBUG, Started)]) (calls world_after_run))
     (''/work'', ''20230101_100000-20230101_100100_F.con'') \<and>
   exists (world_processed (logs world_after_run @ [(DEBUG, Started)]) (calls world_after_run))
     (''/out'', ''20230101_100000-20230101_100100_F.mp4'') \<and>
   run sample_env sample_opts world_after_run =
     Inr (world_after_run\<lparr>
            logs := logs world_after_run @ [(DEBUG, Started)] @ process_logs @ sweep_logs,
            calls := calls world_after_run @ process_calls\<rparr>)"
proof -
  have 1: "run sample_env sample_opts sample_world = Inr world_after_run"
    using sample_run [of "[]" "[]"] by (simp add: sample_world_plain world_after_run_def)
  have 2: "files world_after_run = files sample_world" by (simp add: world_after_run_def)
  have 3: "\<not> exists world_after_run (''/work'', ''20230101_100000-20230101_100100_F.con'')"
    "\<not> exists world_after_run (''/out'', ''20230101_100000-20230101_100100_F.mp4'')"
    by (simp_all add: exists_def 2) (simp_all add: sample_world_def)
  have w: "logger DEBUG Started world_after_run =
             sample_world\<lparr>logs := logs world_after_run @ [(DEBUG, Started)],
                          calls := calls world_after_run\<rparr>"
    by (simp add: logger_def world_after_run_def)
  have 4: "create_chunks sample_env sample_opts (logger DEBUG Started world_after_run) =
             Inr [sample_chunk]"
    by (simp only: w sample_chunks)
  have 5: "process_chunks sample_env sample_opts [sample_chunk]
             (logger DEBUG Started world_after_run) =
           Inr (world_processed (logs world_after_run @ [(DEBUG, Started)])
                  (calls world_after_run))"
    by (simp only: w sample_process)
  have 6: "exists (world_processed l c) (''/work'', ''20230101_100000-20230101_100100_F.con'')"
    "exists (world_processed l c) (''/out'', ''20230101_100000-20230101_100100_F.mp4'')" for l c
    by (simp_all add: exists_def world_processed_def sample_world_def)
  have v: "world_after_run = sample_world\<lparr>logs := logs world_after_run,
                                            calls := calls world_after_run\<rparr>"
    by (simp add: world_after_run_def)
  have 7: "run sample_env sample_opts world_after_run =
     Inr (world_after_run\<lparr>
            logs := logs world_after_run @ [(DEBUG, Started)] @ process_logs @ sweep_logs,
            calls := calls world_after_run @ process_calls\<rparr>)"
    by (subst v, simp only: sample_run) (simp add: world_after_run_def)
  from 1 2 3 4 5 6 7 show ?thesis by (simp add: sample_dirs)
qed

text \<open>
  Without the sweep in between, the second pass over the example directory finds the
  manifest and the output of the first and leaves the files and the calls as they are.
\<close>

theorem rerun_creates_nothing_witness:
  "exists (world_processed [] []) (''/work'', ''20230101_100000-20230101_100100_F.con'') \<and>
   create_concat_file sample_env ''/work'' ''20230101_100000-20230101_100100_F.con''
       [normal_100000, normal_100030, normal_100100] False False (world_processed [] []) =
     Inr (None, logger INFO (SkippedExists ''20230101_100000-20230101_100100_F.con'')
                  (world_processed [] [])) \<and>
   exists (world_processed [] []) (''/out'', ''20230101_100000-20230101_100100_F.mp4'') \<and>
   create_output_file sample_env ''/work'' ''20230101_100000-20230101_100100_F.con'' ''/out''
       ''20230101_100000-20230101_100100_F.mp4'' False False (world_processed [] []) =
     Inr (Some True, logger INFO (ConcatSkipped ''20230101_100000-20230101_100100_F.mp4'')
                       (world_processed [] [])) \<and>
   \<not> overwrite sample_opts \<and> \<not> no_output sample_opts \<and>
   (\<forall>fs m out rc. ffmpeg_concat sample_env fs m out \<noteq> MCompleted rc None) \<and>
   process_chunks sample_env sample_opts [sample_chunk] sample_world =
     Inr (world_processed [] []) \<and>
   (\<exists>w2. process_chunks sample_env sample_opts [sample_chunk] (world_processed [] []) = Inr w2 \<and>
         files w2 = files (world_processed [] []) \<and>
         calls w2 = calls (world_processed [] []))"
proof -
  have e1: "exists (world_processed [] []) (''/work'', ''20230101_100000-20230101_100100_F.con'')"
    and e2: "exists (world_processed [] []) (''/out'', ''20230101_100000-20230101_100100_F.mp4'')"
    by (simp_all add: exists_def world_processed_def sample_world_def)
  have tool: "\<forall>fs m out rc. ffmpeg_concat sample_env fs m out \<noteq> MCompleted rc None"
    by (simp add: sample_env_def)
  have p: "process_chunks sample_env sample_opts [sample_chunk] sample_world =
             Inr (world_processed [] [])"
    using sample_process [of "[]" "[]"] by (simp add: sample_world_plain)
  note inst = rerun_creates_nothing [of "world_processed [] []" "''/work''"
      "''20230101_100000-20230101_100100_F.con''" sample_env
      "[normal_100000, normal_100030, normal_100100]" False "''/out''"
      "''20230101_100000-20230101_100100_F.mp4''" "''/work''"
      "''20230101_100000-20230101_100100_F.con''" sample_opts "[sample_chunk]" sample_world
      "world_processed [] []" sample_env]
  from inst e1 have a: "create_concat_file sample_env ''/work''
       ''20230101_100000-20230101_100100_F.con''
       [normal_100000, normal_100030, normal_100100] False False (world_processed [] []) =
     Inr (None, logger INFO (SkippedExists ''20230101_100000-20230101_100100_F.con'')
                  (world_processed [] []))"
    by blast
  from inst e2 have b: "create_output_file sample_env ''/work''
       ''20230101_100000-20230101_100100_F.con'' ''/out''
       ''20230101_100000-20230101_100100_F.mp4'' False False (world_processed [] []) =
     Inr (Some True, logger INFO (ConcatSkipped ''20230101_100000-20230101_100100_F.mp4'')
                       (world_processed [] []))"
    by blast
  from inst sample_dirs(6,7) tool p have
    c: "\<exists>w2. process_chunks sample_env sample_opts [sample_chunk] (world_processed [] []) = Inr w2 \<and>
         files w2 = files (world_processed [] []) \<and>
         calls w2 = calls (world_processed [] [])"
    by blast
  from e1 e2 a b c tool p sample_dirs(6,7) show ?thesis by blast
qed

text \<open>
  Two front recordings with the threshold 2 are skipped with one log record; three are
  fingerprinted and merged.
\<close>

theorem at_or_below_threshold_skipped_witness:
  "int (length [normal_100000, normal_100030]) = concat_threshold sample_opts \<and>
   process_videos sample_env sample_opts ''20230101_100000'' ''20230101_100030'' ''F''
       [normal_100000, normal_100030] ''title'' sample_world =
     Inr (True, sample_world\<lparr>logs := logs sample_world @ [(INFO, SkippedThreshold ''title'' 2)]\<rparr>) \<and>
   process_videos sample_env sample_opts ''20230101_100000'' ''20230101_100100'' ''F''
       [normal_100000, normal_100030, normal_100100] ''title'' sample_world =
     Inr (True, world_processed [] []\<lparr>logs := tl (butlast process_logs)\<rparr>)"
proof -
  note inst2 = at_or_below_threshold_skipped [of "[normal_100000, normal_100030]" sample_opts
      sample_env "''20230101_100000''" "''20230101_100030''" "''F''" "''title''" sample_world]
  note inst3 = at_or_below_threshold_skipped [of "[normal_100000, normal_100030, normal_100100]"
      sample_opts sample_env "''20230101_100000''" "''20230101_100100''" "''F''" "''title''"
      sample_world True "world_processed [] []\<lparr>logs := tl (butlast process_logs)\<rparr>"]
  have eq: "int (length [normal_100000, normal_100030]) = concat_threshold sample_opts"
    by (simp add: sample_dirs)
  with inst2 have skip:
    "process_videos sample_env sample_opts ''20230101_100000'' ''20230101_100030'' ''F''
       [normal_100000, normal_100030] ''title'' sample_world =
     Inr (True, sample_world\<lparr>logs := logs sample_world @ [(INFO, SkippedThreshold ''title'' 2)]\<rparr>)"
    by (simp add: sample_dirs)
  have a: "map_of (files sample_world) (''/work'', ''20230101_100000-20230101_100100_F.con'') = None"
    "map_of (files sample_world) (''/out'', ''20230101_100000-20230101_100100_F.mp4'') = None"
    by (simp_all add: sample_world_def)
  have w: "sample_world = \<lparr>files = files sample_world, dirs = [''/rec'', ''/work'', ''/out''],
                           logs = [], calls = []\<rparr>"
    by (simp add: sample_world_def)
  have merge:
    "process_videos sample_env sample_opts ''20230101_100000'' ''20230101_100100'' ''F''
       [normal_100000, normal_100030, normal_100100] ''title'' sample_world =
     Inr (True, world_processed [] []\<lparr>logs := tl (butlast process_logs)\<rparr>)"
    by (subst w, simp only: sample_front [OF a])
      (simp add: world_processed_def process_logs_def process_calls_def)
  have changed: "files (world_processed [] []\<lparr>logs := tl (butlast process_logs)\<rparr>) \<noteq>
                 files sample_world"
    by (simp add: world_processed_def)
  from inst3 merge changed have
    "concat_threshold sample_opts < int (length [normal_100000, normal_100030, normal_100100])"
    by blast
  with eq skip merge show ?thesis by simp
qed

text \<open>
  A chunk with a GPS log, a front, a rear and an interior recording of one instant: the
  interior recording is in neither list.
\<close>

theorem camera_lists_by_role_suffix_witness:
  "split_videos [] [] [gps_100000, normal_100000, rear_100000, interior_100000] =
     ([normal_100000], [rear_100000]) \<and>
   interior_100000 \<in> set [gps_100000, normal_100000, rear_100000, interior_100000] \<and>
   ext interior_100000 = ''mp4'' \<and> \<not> endswith (rtype interior_100000) ''F'' \<and>
   \<not> endswith (rtype interior_100000) ''R'' \<and>
   interior_100000 \<notin> set (fst (split_videos [] []
     [gps_100000, normal_100000, rear_100000, interior_100000])) \<and>
   interior_100000 \<notin> set (snd (split_videos [] []
     [gps_100000, normal_100000, rear_100000, interior_100000])) \<and>
   process_chunks sample_env sample_opts [sample_chunk] sample_world =
     Inr (world_processed [] []) \<and>
   Framemd5 ''/rec/20230101_100030_NF.mp4'' \<in> set (calls (world_processed [] [])) \<and>
   Framemd5 ''/rec/20230101_100030_NF.mp4'' \<notin> set (calls sample_world) \<and>
   (\<exists>c\<in>set [sample_chunk]. \<exists>v\<in>set c. ''/rec/20230101_100030_NF.mp4'' = video_path v \<and>
      ext v = ''mp4'' \<and> (endswith (rtype v) ''F'' \<or> endswith (rtype v) ''R'')) \<and>
   add_all sample_opts [] [gps_100000, normal_100000, normal_100030, normal_100100] =
     Inr [sample_chunk] \<and>
   concat [sample_chunk] = [gps_100000, normal_100000, normal_100030, normal_100100]"
proof -
  let ?chunk = "[gps_100000, normal_100000, rear_100000, interior_100000]"
  note inst = camera_lists_by_role_suffix [of ?chunk interior_100000 sample_env sample_opts
      "[sample_chunk]" sample_world "world_processed [] []" "''/rec/20230101_100030_NF.mp4''"
      "[gps_100000, normal_100000, normal_100030, normal_100100]" "[sample_chunk]"]
  have fields: "ext interior_100000 = ''mp4''" "\<not> endswith (rtype interior_100000) ''F''"
    "\<not> endswith (rtype interior_100000) ''R''"
    by (simp_all add: interior_100000_def sample_rec_def endswith_def)
  have mem: "interior_100000 \<in> set ?chunk" by simp
  from inst have split: "split_videos [] [] ?chunk =
     (filter (\<lambda>item. ext item = ''mp4'' \<and> endswith (rtype item) ''F'') ?chunk,
      filter (\<lambda>item. ext item = ''mp4'' \<and> endswith (rtype item) ''R'') ?chunk)"
    by blast
  have lists: "split_videos [] [] ?chunk = ([normal_100000], [rear_100000])"
    by (subst split) (simp add: gps_100000_def normal_100000_def rear_100000_def
        interior_100000_def sample_rec_def endswith_def)
  from inst mem fields have out:
    "interior_100000 \<notin> set (fst (split_videos [] [] ?chunk))"
    "interior_100000 \<notin> set (snd (split_videos [] [] ?chunk))"
    by blast+
  have p: "process_chunks sample_env sample_opts [sample_chunk] sample_world =
             Inr (world_processed [] [])"
    using sample_process [of "[]" "[]"] by (simp add: sample_world_plain)
  have c1: "Framemd5 ''/rec/20230101_100030_NF.mp4'' \<in> set (calls (world_processed [] []))"
    by (simp add: world_processed_def process_calls_def)
  have c0: "Framemd5 ''/rec/20230101_100030_NF.mp4'' \<notin> set (calls sample_world)"
    by (simp add: sample_world_def)
  from inst p c1 c0 have elig:
    "\<exists>c\<in>set [sample_chunk]. \<exists>v\<in>set c. ''/rec/20230101_100030_NF.mp4'' = video_path v \<and>
      ext v = ''mp4'' \<and> (endswith (rtype v) ''F'' \<or> endswith (rtype v) ''R'')"
    by blast
  have ch: "add_all sample_opts [] [gps_100000, normal_100000, normal_100030, normal_100100] =
              Inr [sample_chunk]"
    by (simp add: sample_steps sample_chunk_def)
  with inst have cc:
    "concat [sample_chunk] = [gps_100000, normal_100000, normal_100030, normal_100100]"
    by blast
  from lists mem fields out p c1 c0 elig ch cc show ?thesis by blast
qed

end
